theory Spec2Isabelle
  imports Complex_Main
begin

section \<open>The Math of Time: timing, state and transform core of sketch.js\<close>

text \<open>
  The sketch keeps its state in global variables that the p5.js callbacks \<open>keyPressed\<close> and
  \<open>draw\<close> mutate. The model passes a record of those globals through each callback.
  JavaScript numbers are modelled as real numbers, and the functions compute exactly;
  where a property depends on how the double arithmetic rounds, the function is given once
  more with the rounding as a parameter (the names ending in \<open>_fl\<close>). The values a double
  can take besides finite ones are added where the code converts them (\<open>v | 0\<close>). What the
  host supplies (\<open>millis()\<close>, \<open>deltaTime\<close>, \<open>width\<close>, \<open>height\<close>, \<open>random\<close>, the wall
  clock, the key) is an input of the callback; \<open>millis()\<close> is read once per callback.
\<close>

subsection \<open>Constants\<close>

definition DESIGN_W :: real where "DESIGN_W = 1080"
definition DESIGN_H :: real where "DESIGN_H = 1920"

definition CONTENT_TOP_BASE :: real where "CONTENT_TOP_BASE = - 180"
definition CONTENT_BOTTOM_BASE :: real where "CONTENT_BOTTOM_BASE = 1120"
definition CONTENT_PAD :: real where "CONTENT_PAD = 80"

definition CONTENT_MIN_Y :: real where "CONTENT_MIN_Y = CONTENT_TOP_BASE - CONTENT_PAD"
definition CONTENT_MAX_Y :: real where "CONTENT_MAX_Y = CONTENT_BOTTOM_BASE + CONTENT_PAD"

definition ROULETTE_FAST :: real where "ROULETTE_FAST = 90"
definition ROULETTE_SLOW_STOP :: real where "ROULETTE_SLOW_STOP = 950"
definition ROULETTE_BRAKE_MULT :: real where "ROULETTE_BRAKE_MULT = 118 / 100"

text \<open>The p5.js key codes the sketch compares \<open>keyCode\<close> with.\<close>

definition ESCAPE :: nat where "ESCAPE = 27"
definition ENTER :: nat where "ENTER = 13"
definition RETURN :: nat where "RETURN = 13"
definition BACKSPACE :: nat where "BACKSPACE = 8"

subsection \<open>JavaScript numbers and the p5.js helpers the sketch calls\<close>

datatype jsnum = Num real | NaN | PosInf | NegInf

text \<open>Truncation toward zero, the integer part JavaScript takes in \<open>ToInt32\<close> and \<open>%\<close>.\<close>

definition trunc_real :: "real \<Rightarrow> int" where
  "trunc_real v = (if v < 0 then \<lceil>v\<rceil> else \<lfloor>v\<rfloor>)"

text \<open>\<open>ToInt32\<close>: the integer part modulo \<open>2^32\<close>, read as a signed 32-bit value.\<close>

definition wrap_int32 :: "int \<Rightarrow> int" where
  "wrap_int32 n = (let k = n mod 2 ^ 32 in if 2 ^ 31 \<le> k then k - 2 ^ 32 else k)"

fun toInt32 :: "jsnum \<Rightarrow> int" where
  "toInt32 (Num v) = wrap_int32 (trunc_real v)"
| "toInt32 NaN = 0"
| "toInt32 PosInf = 0"
| "toInt32 NegInf = 0"

text \<open>The remainder operator \<open>x % y\<close> on finite numbers: the sign follows the dividend.\<close>

definition js_rem :: "real \<Rightarrow> real \<Rightarrow> real" where
  "js_rem a b = a - b * of_int (trunc_real (a / b))"

text \<open>p5's \<open>map(n, start1, stop1, start2, stop2)\<close> and \<open>dist\<close>.\<close>

definition map_p5 :: "real \<Rightarrow> real \<Rightarrow> real \<Rightarrow> real \<Rightarrow> real \<Rightarrow> real" where
  "map_p5 n start1 stop1 start2 stop2 =
     (n - start1) / (stop1 - start1) * (stop2 - start2) + start2"

definition dist_p5 :: "real \<Rightarrow> real \<Rightarrow> real \<Rightarrow> real \<Rightarrow> real" where
  "dist_p5 x1 y1 x2 y2 = sqrt ((x2 - x1)\<^sup>2 + (y2 - y1)\<^sup>2)"

text \<open>\<open>p5.Vector\<close>: three components; \<open>createVector(x, y)\<close> leaves \<open>z\<close> at 0.\<close>

datatype vec = Vec (vx: real) (vy: real) (vz: real)

definition createVector :: "real \<Rightarrow> real \<Rightarrow> vec" where
  "createVector a b = Vec a b 0"

definition vec_lerp :: "vec \<Rightarrow> vec \<Rightarrow> real \<Rightarrow> vec" where
  "vec_lerp a b amt =
     Vec (vx a + (vx b - vx a) * amt) (vy a + (vy b - vy a) * amt) (vz a + (vz b - vz a) * amt)"

subsection \<open>Strings: \<open>trim\<close>, \<open>split(":")\<close>, \<open>parseInt(s, 10)\<close>, comparison\<close>

text \<open>
  Characters are the code units below 256. The white space of \<open>trim\<close> and \<open>parseInt\<close>
  among them is TAB, LF, VT, FF, CR, space and the no-break space (code 160).
\<close>

definition is_ws :: "char \<Rightarrow> bool" where
  "is_ws c = (c = CHR '' '' \<or> (9 \<le> (of_char c :: nat) \<and> (of_char c :: nat) \<le> 13)
              \<or> (of_char c :: nat) = 160)"

definition is_digit :: "char \<Rightarrow> bool" where
  "is_digit c = (48 \<le> (of_char c :: nat) \<and> (of_char c :: nat) \<le> 57)"

definition digit_val :: "char \<Rightarrow> int" where
  "digit_val c = int (of_char c) - 48"

definition trim :: "string \<Rightarrow> string" where
  "trim s = rev (dropWhile is_ws (rev (dropWhile is_ws s)))"

fun split_colon :: "string \<Rightarrow> string list" where
  "split_colon [] = [[]]"
| "split_colon (c # cs) =
     (if c = CHR '':'' then [] # split_colon cs
      else (case split_colon cs of [] \<Rightarrow> [[c]] | p # ps \<Rightarrow> (c # p) # ps))"

text \<open>
  \<open>parseInt(s, 10)\<close>: skip leading white space, read an optional sign, then the longest run
  of decimal digits; whatever follows is ignored. No digit at all gives \<open>NaN\<close> (\<open>None\<close>).
\<close>

definition parseInt10 :: "string \<Rightarrow> int option" where
  "parseInt10 s =
     (let t = dropWhile is_ws s;
          neg = (t \<noteq> [] \<and> hd t = CHR ''-'');
          u = (if t \<noteq> [] \<and> (hd t = CHR ''-'' \<or> hd t = CHR ''+'') then tl t else t);
          ds = takeWhile is_digit u
      in if ds = [] then None
         else Some ((if neg then - 1 else 1) * foldl (\<lambda>acc c. 10 * acc + digit_val c) 0 ds))"

text \<open>The order \<open><=\<close> of JavaScript strings: lexicographic on the character codes.\<close>

fun js_str_le :: "string \<Rightarrow> string \<Rightarrow> bool" where
  "js_str_le [] t = True"
| "js_str_le (a # u) [] = False"
| "js_str_le (a # u) (b # t) =
     ((of_char a :: nat) < of_char b \<or> (a = b \<and> js_str_le u t))"

subsection \<open>The global state\<close>

datatype roulette = Off | Spin | Brake

datatype phase = Auto | Geo | Tri

record state =
  animTime :: real
  fadeTimer :: real
  geoAlpha :: int
  triContentAlpha :: int
  sc :: real
  gOffX :: real
  gOffY :: real
  gSc :: real
  useLiveTime :: bool
  manualH :: int
  manualM :: int
  manualS :: int
  typingMode :: bool
  timeInput :: string
  inputHintTimer :: real
  rouletteState :: roulette
  rouletteNextAt :: real
  rouletteInterval :: real
  phaseMode :: phase
  manualPhaseEnabled :: bool

text \<open>The values the \<open>let\<close> declarations at the top of the file give the globals.\<close>

definition init :: state where
  "init = \<lparr> animTime = 0, fadeTimer = 0, geoAlpha = 255, triContentAlpha = 0, sc = 1,
            gOffX = 0, gOffY = 0, gSc = 1, useLiveTime = True,
            manualH = 12, manualM = 0, manualS = 0,
            typingMode = False, timeInput = [], inputHintTimer = 0,
            rouletteState = Off, rouletteNextAt = 0, rouletteInterval = 90,
            phaseMode = Auto, manualPhaseEnabled = False \<rparr>"

text \<open>What the host hands to one call of \<open>draw\<close>, and to one call of \<open>keyPressed\<close>.\<close>

record frame =
  deltaTime :: real
  millis :: real
  width :: real
  height :: real
  random24 :: real
  random60a :: real
  random60b :: real
  hour :: int
  minute :: int
  second :: int

record keyEvent =
  key :: string
  keyCode :: nat
  keyMillis :: real

subsection \<open>Time source\<close>

definition clampInt :: "jsnum \<Rightarrow> int \<Rightarrow> int \<Rightarrow> int" where
  "clampInt v a b = max a (min b (toInt32 v))"

definition setManualTime :: "jsnum \<Rightarrow> jsnum \<Rightarrow> jsnum \<Rightarrow> state \<Rightarrow> state" where
  "setManualTime h m s st =
     st\<lparr> manualH := clampInt h 0 23, manualM := clampInt m 0 59, manualS := clampInt s 0 59,
         useLiveTime := False \<rparr>"

text \<open>\<open>setRandomTime\<close>, given the three values \<open>random(0, 24)\<close>, \<open>random(0, 60)\<close>, \<open>random(0, 60)\<close>.\<close>

definition setRandomTime :: "real \<Rightarrow> real \<Rightarrow> real \<Rightarrow> state \<Rightarrow> state" where
  "setRandomTime r24 r60a r60b st =
     setManualTime (Num (of_int \<lfloor>r24\<rfloor>)) (Num (of_int \<lfloor>r60a\<rfloor>)) (Num (of_int \<lfloor>r60b\<rfloor>)) st"

datatype parsed = Parsed (parsed_h: int) (parsed_m: int) (parsed_s: int)

definition parseTimeString :: "string \<Rightarrow> parsed option" where
  "parseTimeString str =
     (let parts = split_colon (trim str) in
      if length parts < 2 \<or> length parts > 3 then None
      else
        (let h = parseInt10 (parts ! 0);
             m = parseInt10 (parts ! 1);
             s = (if length parts = 3 then parseInt10 (parts ! 2) else Some 0)
         in case (h, m, s) of
              (Some hv, Some mv, Some sv) \<Rightarrow>
                if hv < 0 \<or> hv > 23 then None
                else if mv < 0 \<or> mv > 59 then None
                else if sv < 0 \<or> sv > 59 then None
                else Some (Parsed hv mv sv)
            | _ \<Rightarrow> None))"

subsection \<open>Roulette\<close>

definition rouletteStart :: "real \<Rightarrow> state \<Rightarrow> state" where
  "rouletteStart now st =
     st\<lparr> typingMode := False, timeInput := [], inputHintTimer := 0,
         useLiveTime := False, rouletteState := Spin,
         rouletteInterval := ROULETTE_FAST, rouletteNextAt := now \<rparr>"

definition rouletteBeginBrake :: "real \<Rightarrow> state \<Rightarrow> state" where
  "rouletteBeginBrake now st =
     st\<lparr> rouletteState := Brake, rouletteNextAt := now + rouletteInterval st \<rparr>"

definition rouletteStop :: "state \<Rightarrow> state" where
  "rouletteStop st = st\<lparr> rouletteState := Off \<rparr>"

text \<open>The roulette block of \<open>draw\<close>: a tick happens when the roulette is on and its time has come.\<close>

definition tick_due :: "frame \<Rightarrow> state \<Rightarrow> bool" where
  "tick_due fr st = (rouletteState st \<noteq> Off \<and> rouletteNextAt st \<le> millis fr)"

definition roulette_tick :: "frame \<Rightarrow> state \<Rightarrow> state" where
  "roulette_tick fr st =
     (if tick_due fr st then
        (let st1 = setRandomTime (random24 fr) (random60a fr) (random60b fr) st in
         if rouletteState st1 = Spin then
           st1\<lparr> rouletteInterval := ROULETTE_FAST, rouletteNextAt := millis fr + ROULETTE_FAST \<rparr>
         else if rouletteState st1 = Brake then
           (let i = rouletteInterval st1 * ROULETTE_BRAKE_MULT;
                st2 = st1\<lparr> rouletteInterval := i, rouletteNextAt := millis fr + i \<rparr>
            in if ROULETTE_SLOW_STOP \<le> rouletteInterval st2 then rouletteStop st2 else st2)
         else st1)
      else st)"

subsection \<open>Input\<close>

definition keyPressed :: "keyEvent \<Rightarrow> state \<Rightarrow> state" where
  "keyPressed ev st =
     (if key ev = ''r'' \<or> key ev = ''R'' then
        (rouletteStop st)\<lparr> typingMode := False, timeInput := [], useLiveTime := True,
                           manualPhaseEnabled := False, phaseMode := Auto \<rparr>
      else if key ev = ''z'' \<or> key ev = ''Z'' then
        (if rouletteState st = Off then rouletteStart (keyMillis ev) st
         else if rouletteState st = Spin then rouletteBeginBrake (keyMillis ev) st
         else if rouletteState st = Brake then rouletteStop st
         else st)
      else if key ev = '' '' then
        (let st1 = st\<lparr> manualPhaseEnabled := \<not> manualPhaseEnabled st \<rparr> in
         if \<not> manualPhaseEnabled st1 then st1\<lparr> phaseMode := Auto \<rparr>
         else st1\<lparr> phaseMode := Geo \<rparr>)
      else if key ev = ''1'' then st\<lparr> manualPhaseEnabled := True, phaseMode := Geo \<rparr>
      else if key ev = ''2'' then st\<lparr> manualPhaseEnabled := True, phaseMode := Tri \<rparr>
      else if key ev = ''3'' then st\<lparr> manualPhaseEnabled := False, phaseMode := Auto \<rparr>
      else if key ev = ''t'' \<or> key ev = ''T'' then
        (let st1 = rouletteStop st;
             st2 = st1\<lparr> typingMode := \<not> typingMode st1 \<rparr>
         in if typingMode st2 then st2\<lparr> timeInput := [], inputHintTimer := keyMillis ev \<rparr>
            else st2)
      else if typingMode st then
        (if keyCode ev = ESCAPE then st\<lparr> typingMode := False, timeInput := [] \<rparr>
         else if keyCode ev = ENTER \<or> keyCode ev = RETURN then
           (case parseTimeString (timeInput st) of
              Some p \<Rightarrow>
                (setManualTime (Num (of_int (parsed_h p))) (Num (of_int (parsed_m p)))
                   (Num (of_int (parsed_s p))) (rouletteStop st))
                 \<lparr> typingMode := False, timeInput := [] \<rparr>
            | None \<Rightarrow> st\<lparr> inputHintTimer := keyMillis ev \<rparr>)
         else if keyCode ev = BACKSPACE then st\<lparr> timeInput := butlast (timeInput st) \<rparr>
         else if (js_str_le ''0'' (key ev) \<and> js_str_le (key ev) ''9'') \<or> key ev = '':'' then
           (if length (timeInput st) < 8 then st\<lparr> timeInput := timeInput st @ key ev \<rparr>
            else st)
         else st)
      else st)"

subsection \<open>Phases\<close>

text \<open>The five branches of the automatic schedule: the pair \<open>(geoAlpha, triContentAlpha)\<close>.\<close>

definition auto_alphas :: "real \<Rightarrow> int \<times> int" where
  "auto_alphas cycle =
     (if cycle < 1.5 then (\<lfloor>map_p5 (cycle / 1.5) 0 1 255 0\<rfloor>, 0)
      else if cycle < 11.5 then (0, 255)
      else if cycle < 13.0 then (0, \<lfloor>map_p5 ((cycle - 11.5) / 1.5) 0 1 255 0\<rfloor>)
      else if cycle < 14.5 then (\<lfloor>map_p5 ((cycle - 13.0) / 1.5) 0 1 0 255\<rfloor>, 0)
      else (255, 0))"

definition phase_update :: "real \<Rightarrow> state \<Rightarrow> state" where
  "phase_update cycle st =
     (if \<not> manualPhaseEnabled st \<and> phaseMode st = Auto then
        st\<lparr> geoAlpha := fst (auto_alphas cycle), triContentAlpha := snd (auto_alphas cycle) \<rparr>
      else if phaseMode st = Tri then st\<lparr> geoAlpha := 0, triContentAlpha := 255 \<rparr>
      else if phaseMode st = Geo then st\<lparr> geoAlpha := 255, triContentAlpha := 0 \<rparr>
      else st\<lparr> manualPhaseEnabled := False, phaseMode := Auto \<rparr>)"

subsection \<open>Viewport transform\<close>

definition viewport_update :: "frame \<Rightarrow> state \<Rightarrow> state" where
  "viewport_update fr st =
     (let CONTENT_H = CONTENT_MAX_Y - CONTENT_MIN_Y;
          s = min (width fr / DESIGN_W) (height fr / CONTENT_H);
          offX = (width fr - DESIGN_W * s) / 2;
          offY = (height fr - CONTENT_H * s) / 2
      in st\<lparr> sc := s, gOffX := offX, gOffY := offY, gSc := s \<rparr>)"

subsection \<open>One frame\<close>

text \<open>
  The part of \<open>draw\<close> that writes the globals: the clocks advance, the roulette ticks, the
  alphas are set from the cycle position, the transform is recomputed. The rest of \<open>draw\<close>
  reads them and computes locals (the time value and the hour marker below) and pixels.
\<close>

definition advance_clocks :: "frame \<Rightarrow> state \<Rightarrow> state" where
  "advance_clocks fr st =
     (let dt = deltaTime fr / 1000.0 in
      st\<lparr> animTime := animTime st + dt, fadeTimer := fadeTimer st + dt \<rparr>)"

definition draw :: "frame \<Rightarrow> state \<Rightarrow> state" where
  "draw fr st =
     (let st1 = advance_clocks fr st;
          st2 = roulette_tick fr st1;
          cycle = js_rem (fadeTimer st2) 23.0;
          st3 = phase_update cycle st2
      in viewport_update fr st3)"

datatype event = Frame frame | Key keyEvent

fun step :: "event \<Rightarrow> state \<Rightarrow> state" where
  "step (Frame fr) st = draw fr st"
| "step (Key ev) st = keyPressed ev st"

fun run :: "event list \<Rightarrow> state \<Rightarrow> state" where
  "run [] st = st"
| "run (e # es) st = run es (step e st)"

subsection \<open>Time value and hour marker\<close>

text \<open>
  The locals of \<open>draw\<close> that give the time value (\<open>hNow\<close>, \<open>mNow\<close>, \<open>sNow\<close>, \<open>S\<close>, \<open>M\<close>,
  \<open>H12\<close>), the four vertices \<open>pts\<close> of the hour shape at time \<open>t = millis() * 0.001\<close>, its
  perimeter, and the loop that walks the edges to place \<open>hourMarker\<close>. A division by an
  edge of length 0 would make the marker's coordinates \<open>NaN\<close>: that is the result \<open>None\<close>.
  \<open>cum_len pts i\<close> is the length of the first \<open>i\<close> edges.
\<close>

definition hNow :: "frame \<Rightarrow> state \<Rightarrow> int" where
  "hNow fr st = (if useLiveTime st then hour fr else manualH st)"

definition mNow :: "frame \<Rightarrow> state \<Rightarrow> int" where
  "mNow fr st = (if useLiveTime st then minute fr else manualM st)"

definition sNow :: "frame \<Rightarrow> state \<Rightarrow> int" where
  "sNow fr st = (if useLiveTime st then second fr else manualS st)"

definition S_now :: "frame \<Rightarrow> state \<Rightarrow> real" where
  "S_now fr st = (if useLiveTime st then js_rem (millis fr / 1000.0) 60.0 else of_int (sNow fr st))"

definition M_now :: "frame \<Rightarrow> state \<Rightarrow> real" where
  "M_now fr st = of_int (mNow fr st) + S_now fr st / 60.0"

definition H12 :: "frame \<Rightarrow> state \<Rightarrow> real" where
  "H12 fr st = js_rem (of_int (hNow fr st)) 12 + M_now fr st / 60.0"

definition hour_pts :: "real \<Rightarrow> vec list" where
  "hour_pts t =
     (let sizeBase = 180;
          p0 = createVector (- sizeBase) (- sizeBase);
          p1 = createVector sizeBase (- sizeBase);
          p2 = createVector sizeBase sizeBase;
          p3 = createVector (- sizeBase) sizeBase;
          triF = (sin (t * 0.5) + 1) * 0.5;
          kiteF = (sin (t * 0.8 + pi / 3) + 1) * 0.5;
          rectF = (sin (t * 0.6 + pi / 5) + 1) * 0.5;
          p0 = Vec (vx p0 * (1.0 + rectF * 0.3)) (vy p0) (vz p0);
          p1 = Vec (vx p1) (vy p1 * (1.0 + rectF * 0.2)) (vz p1);
          p2 = Vec (vx p2 * (1.0 + rectF * 0.3)) (vy p2) (vz p2);
          p3 = Vec (vx p3) (vy p3 * (1.0 + rectF * 0.2)) (vz p3);
          p0 = Vec (vx p0 - kiteF * 50) (vy p0) (vz p0);
          p2 = Vec (vx p2 + kiteF * 50) (vy p2) (vz p2);
          p1 = Vec (vx p1) (vy p1 - kiteF * 30) (vz p1);
          p3 = Vec (vx p3) (vy p3 + kiteF * 30) (vz p3);
          midTop = vec_lerp p0 p1 0.5;
          p0 = vec_lerp p0 midTop (triF * 0.9);
          p1 = vec_lerp p1 midTop (triF * 0.9)
      in [p0, p1, p2, p3])"

definition edge_len :: "vec list \<Rightarrow> nat \<Rightarrow> real" where
  "edge_len pts i =
     (let a = pts ! i; b = pts ! ((i + 1) mod 4) in dist_p5 (vx a) (vy a) (vx b) (vy b))"

definition perim :: "vec list \<Rightarrow> real" where
  "perim pts = foldl (\<lambda>p i. p + edge_len pts i) 0 [0..<4]"

function hour_walk :: "vec list \<Rightarrow> real \<Rightarrow> nat \<Rightarrow> real \<Rightarrow> vec option" where
  "hour_walk pts aH i lenSoFar =
     (if i < 4 then
        (let a = pts ! i; b = pts ! ((i + 1) mod 4);
             d = dist_p5 (vx a) (vy a) (vx b) (vy b)
         in if aH \<le> lenSoFar + d then
              (if d = 0 then None else Some (vec_lerp a b ((aH - lenSoFar) / d)))
            else hour_walk pts aH (i + 1) (lenSoFar + d))
      else Some (createVector 0 0))"
  by pat_completeness auto
termination
  by (relation "measure (\<lambda>(pts, aH, i, lenSoFar). 4 - i)") auto

definition pts_now :: "frame \<Rightarrow> vec list" where
  "pts_now fr = hour_pts (millis fr * 0.001)"

definition aH_now :: "frame \<Rightarrow> state \<Rightarrow> real" where
  "aH_now fr st = map_p5 (js_rem (H12 fr st) 12) 0 12 0 (perim (pts_now fr))"

definition hourMarker :: "frame \<Rightarrow> state \<Rightarrow> vec option" where
  "hourMarker fr st = hour_walk (pts_now fr) (aH_now fr st) 0 0"

primrec cum_len :: "vec list \<Rightarrow> nat \<Rightarrow> real" where
  "cum_len pts 0 = 0"
| "cum_len pts (Suc i) = cum_len pts i + edge_len pts i"

subsection \<open>The cycle clock and the alphas under machine rounding\<close>

text \<open>
  The program computes in double precision: each of \<open>/\<close>, \<open>*\<close>, \<open>+\<close>, \<open>-\<close> returns the
  double nearest to the exact result. The functions below are \<open>map\<close>, the phase branches
  and the clock part of \<open>draw\<close> once more, with that rounding as a parameter \<open>rnd\<close> applied
  after every such operation, in the order the source evaluates them. The program is the
  instance where \<open>rnd\<close> rounds to the nearest double; \<open>draw\<close> above is the instance where
  \<open>rnd\<close> changes nothing. The remainder \<open>%\<close>, the comparisons and \<open>Math.floor\<close> are exact
  on doubles and are not rounded; overflow to infinity is not modelled. The roulette and
  the transform are taken from \<open>draw\<close> as they are.
\<close>

definition map_p5_fl :: "(real \<Rightarrow> real) \<Rightarrow> real \<Rightarrow> real \<Rightarrow> real \<Rightarrow> real \<Rightarrow> real \<Rightarrow> real" where
  "map_p5_fl rnd n start1 stop1 start2 stop2 =
     rnd (rnd (rnd (rnd (n - start1) / rnd (stop1 - start1)) * rnd (stop2 - start2)) + start2)"

definition auto_alphas_fl :: "(real \<Rightarrow> real) \<Rightarrow> real \<Rightarrow> int \<times> int" where
  "auto_alphas_fl rnd cycle =
     (if cycle < 1.5 then (\<lfloor>map_p5_fl rnd (rnd (cycle / 1.5)) 0 1 255 0\<rfloor>, 0)
      else if cycle < 11.5 then (0, 255)
      else if cycle < 13.0 then (0, \<lfloor>map_p5_fl rnd (rnd (rnd (cycle - 11.5) / 1.5)) 0 1 255 0\<rfloor>)
      else if cycle < 14.5 then (\<lfloor>map_p5_fl rnd (rnd (rnd (cycle - 13.0) / 1.5)) 0 1 0 255\<rfloor>, 0)
      else (255, 0))"

definition phase_update_fl :: "(real \<Rightarrow> real) \<Rightarrow> real \<Rightarrow> state \<Rightarrow> state" where
  "phase_update_fl rnd cycle st =
     (if \<not> manualPhaseEnabled st \<and> phaseMode st = Auto then
        st\<lparr> geoAlpha := fst (auto_alphas_fl rnd cycle),
            triContentAlpha := snd (auto_alphas_fl rnd cycle) \<rparr>
      else if phaseMode st = Tri then st\<lparr> geoAlpha := 0, triContentAlpha := 255 \<rparr>
      else if phaseMode st = Geo then st\<lparr> geoAlpha := 255, triContentAlpha := 0 \<rparr>
      else st\<lparr> manualPhaseEnabled := False, phaseMode := Auto \<rparr>)"

definition advance_clocks_fl :: "(real \<Rightarrow> real) \<Rightarrow> frame \<Rightarrow> state \<Rightarrow> state" where
  "advance_clocks_fl rnd fr st =
     (let dt = rnd (deltaTime fr / 1000.0) in
      st\<lparr> animTime := rnd (animTime st + dt), fadeTimer := rnd (fadeTimer st + dt) \<rparr>)"

definition draw_fl :: "(real \<Rightarrow> real) \<Rightarrow> frame \<Rightarrow> state \<Rightarrow> state" where
  "draw_fl rnd fr st =
     (let st1 = advance_clocks_fl rnd fr st;
          st2 = roulette_tick fr st1;
          cycle = js_rem (fadeTimer st2) 23.0;
          st3 = phase_update_fl rnd cycle st2
      in viewport_update fr st3)"

fun step_fl :: "(real \<Rightarrow> real) \<Rightarrow> event \<Rightarrow> state \<Rightarrow> state" where
  "step_fl rnd (Frame fr) st = draw_fl rnd fr st"
| "step_fl rnd (Key ev) st = keyPressed ev st"

fun run_fl :: "(real \<Rightarrow> real) \<Rightarrow> event list \<Rightarrow> state \<Rightarrow> state" where
  "run_fl rnd [] st = st"
| "run_fl rnd (e # es) st = run_fl rnd es (step_fl rnd e st)"

subsection \<open>Predicates used to state the properties\<close>

text \<open>Time-entry typing and a running roulette are not both on.\<close>

definition exclusive :: "state \<Rightarrow> bool" where
  "exclusive st = (\<not> (typingMode st \<and> rouletteState st \<noteq> Off))"




text \<open>
  The clock after a list of events, as the program adds it up: one rounded addition of the
  rounded frame time per frame, nothing for a key.
\<close>

fun accumulate :: "(real \<Rightarrow> real) \<Rightarrow> real \<Rightarrow> event list \<Rightarrow> real" where
  "accumulate rnd t [] = t"
| "accumulate rnd t (Frame fr # es) = accumulate rnd (rnd (t + rnd (deltaTime fr / 1000))) es"
| "accumulate rnd t (Key ev # es) = accumulate rnd t es"

text \<open>
  The words of the schedule: linear interpolation in the machine arithmetic; what is used
  of a rounding (it is monotone, it leaves a rounded number as it is, and the numbers 0, 1,
  1.5, 255 and -255 are not changed by it); a coarse rounding, to halves, as a second
  example of one; the cycle position of a state; the number of the window a cycle position
  lies in; and \<open>geoAlpha\<close> of the exact schedule as a real function of the cycle position.
\<close>

definition lerp_fl :: "(real \<Rightarrow> real) \<Rightarrow> real \<Rightarrow> real \<Rightarrow> real \<Rightarrow> real" where
  "lerp_fl rnd a b f = rnd (a + rnd (rnd (b - a) * f))"

definition rounding :: "(real \<Rightarrow> real) \<Rightarrow> bool" where
  "rounding rnd =
     (mono rnd \<and> (\<forall>x. rnd (rnd x) = rnd x)
      \<and> rnd 0 = 0 \<and> rnd 1 = 1 \<and> rnd (3 / 2) = 3 / 2
      \<and> rnd 255 = 255 \<and> rnd (- 255) = - 255)"

definition round_half :: "real \<Rightarrow> real" where
  "round_half x = of_int \<lfloor>2 * x + 1 / 2\<rfloor> / 2"

definition cycleTime :: "state \<Rightarrow> real" where
  "cycleTime st = js_rem (fadeTimer st) 23.0"

definition window :: "real \<Rightarrow> nat" where
  "window c = (if c < 1.5 then 1 else if c < 11.5 then 2 else if c < 13.0 then 3
               else if c < 14.5 then 4 else 5)"

definition auto_geo :: "real \<Rightarrow> real" where
  "auto_geo c = of_int (fst (auto_alphas c))"

section \<open>Viewport transform\<close>

lemmas content_consts = DESIGN_W_def CONTENT_MAX_Y_def CONTENT_MIN_Y_def
  CONTENT_TOP_BASE_def CONTENT_BOTTOM_BASE_def CONTENT_PAD_def

text \<open>
  Claim C3. Every frame \<open>draw\<close> stores the uniform scale
  \<open>min (width / DESIGN_W) (height / CONTENT_H)\<close> with \<open>CONTENT_H = CONTENT_MAX_Y - CONTENT_MIN_Y\<close>,
  and the offsets \<open>(width - DESIGN_W * scale) / 2\<close> and \<open>(height - CONTENT_H * scale) / 2\<close>.
  The constants are 1080 and 1460, and a viewport of 1080 by 1460 gives scale 1 and both
  offsets 0.
\<close>

theorem viewport_transform:
  "gSc (draw fr st) = min (width fr / DESIGN_W) (height fr / (CONTENT_MAX_Y - CONTENT_MIN_Y))
   \<and> sc (draw fr st) = gSc (draw fr st)
   \<and> gOffX (draw fr st) = (width fr - DESIGN_W * gSc (draw fr st)) / 2
   \<and> gOffY (draw fr st) = (height fr - (CONTENT_MAX_Y - CONTENT_MIN_Y) * gSc (draw fr st)) / 2
   \<and> DESIGN_W = 1080 \<and> CONTENT_MAX_Y - CONTENT_MIN_Y = 1460
   \<and> gSc (draw (fr\<lparr>width := 1080, height := 1460\<rparr>) st) = 1
   \<and> gOffX (draw (fr\<lparr>width := 1080, height := 1460\<rparr>) st) = 0
   \<and> gOffY (draw (fr\<lparr>width := 1080, height := 1460\<rparr>) st) = 0"
  by (simp add: draw_def viewport_update_def Let_def content_consts)

section \<open>Manual time\<close>

lemma wrap_int32_id: "- (2 ^ 31) \<le> n \<Longrightarrow> n < 2 ^ 31 \<Longrightarrow> wrap_int32 n = n"
proof (cases "0 \<le> n")
  case True
  assume "n < 2 ^ 31"
  with True have "n mod 2 ^ 32 = n" by (simp add: mod_pos_pos_trivial)
  with \<open>n < 2 ^ 31\<close> show ?thesis by (simp add: wrap_int32_def)
next
  case False
  assume a: "- (2 ^ 31) \<le> n"
  have "(n + 2 ^ 32) mod 2 ^ 32 = n + 2 ^ 32"
    using a False by (intro mod_pos_pos_trivial) simp_all
  moreover have "(n + 2 ^ 32) mod 2 ^ 32 = n mod 2 ^ 32"
    by (rule mod_add_self2)
  ultimately have "n mod 2 ^ 32 = n + 2 ^ 32" by simp
  with a show ?thesis by (simp add: wrap_int32_def)
qed

lemma clampInt_range: "a \<le> b \<Longrightarrow> a \<le> clampInt v a b \<and> clampInt v a b \<le> b"
  by (simp add: clampInt_def)

lemma clampInt_Num:
  "- (2 ^ 31) \<le> trunc_real v \<Longrightarrow> trunc_real v < 2 ^ 31 \<Longrightarrow>
   clampInt (Num v) a b = max a (min b (trunc_real v))"
  by (simp add: clampInt_def wrap_int32_id)

lemma trunc_real_of_int: "trunc_real (of_int n) = n"
  by (simp add: trunc_real_def)

text \<open>
  Claim C5, as the code has it. \<open>setManualTime\<close> is total; for every JavaScript number,
  \<open>NaN\<close> and the infinities included, it stores an hour in 0..23, a minute and a second in
  0..59, leaves live mode and changes nothing else. \<open>v | 0\<close> is the 32-bit conversion:
  for each component by itself, whatever the other two are, when its integer part lies in
  the signed 32-bit range the stored value is that integer part (truncated toward zero)
  clamped to the nearest boundary; and a valid integer triple is read back unchanged, in
  manual mode.
\<close>

theorem setManualTime_clamps:
  "(\<not> useLiveTime (setManualTime a b c st)
    \<and> 0 \<le> manualH (setManualTime a b c st) \<and> manualH (setManualTime a b c st) \<le> 23
    \<and> 0 \<le> manualM (setManualTime a b c st) \<and> manualM (setManualTime a b c st) \<le> 59
    \<and> 0 \<le> manualS (setManualTime a b c st) \<and> manualS (setManualTime a b c st) \<le> 59
    \<and> setManualTime a b c st =
        st\<lparr> manualH := manualH (setManualTime a b c st),
            manualM := manualM (setManualTime a b c st),
            manualS := manualS (setManualTime a b c st), useLiveTime := False \<rparr>)
   \<and> (- (2 ^ 31) \<le> trunc_real h \<and> trunc_real h < 2 ^ 31
      \<longrightarrow> manualH (setManualTime (Num h) b c st) = max 0 (min 23 (trunc_real h)))
   \<and> (- (2 ^ 31) \<le> trunc_real m \<and> trunc_real m < 2 ^ 31
      \<longrightarrow> manualM (setManualTime a (Num m) c st) = max 0 (min 59 (trunc_real m)))
   \<and> (- (2 ^ 31) \<le> trunc_real s \<and> trunc_real s < 2 ^ 31
      \<longrightarrow> manualS (setManualTime a b (Num s) st) = max 0 (min 59 (trunc_real s)))
   \<and> (0 \<le> hi \<and> hi \<le> 23 \<and> 0 \<le> mi \<and> mi \<le> 59 \<and> 0 \<le> si \<and> si \<le> 59
      \<longrightarrow> manualH (setManualTime (Num (of_int hi)) (Num (of_int mi)) (Num (of_int si)) st) = hi
        \<and> manualM (setManualTime (Num (of_int hi)) (Num (of_int mi)) (Num (of_int si)) st) = mi
        \<and> manualS (setManualTime (Num (of_int hi)) (Num (of_int mi)) (Num (of_int si)) st) = si
        \<and> \<not> useLiveTime (setManualTime (Num (of_int hi)) (Num (of_int mi)) (Num (of_int si)) st))"
proof (intro conjI impI)
  assume "0 \<le> hi \<and> hi \<le> 23 \<and> 0 \<le> mi \<and> mi \<le> 59 \<and> 0 \<le> si \<and> si \<le> 59"
  then have r: "clampInt (Num (of_int hi)) 0 23 = hi" "clampInt (Num (of_int mi)) 0 59 = mi"
    "clampInt (Num (of_int si)) 0 59 = si"
    by (simp_all add: clampInt_Num trunc_real_of_int)
  show "manualH (setManualTime (Num (of_int hi)) (Num (of_int mi)) (Num (of_int si)) st) = hi"
    "manualM (setManualTime (Num (of_int hi)) (Num (of_int mi)) (Num (of_int si)) st) = mi"
    "manualS (setManualTime (Num (of_int hi)) (Num (of_int mi)) (Num (of_int si)) st) = si"
    "\<not> useLiveTime (setManualTime (Num (of_int hi)) (Num (of_int mi)) (Num (of_int si)) st)"
    using r by (simp_all add: setManualTime_def)
next
  assume "- (2 ^ 31) \<le> trunc_real h \<and> trunc_real h < 2 ^ 31"
  then show "manualH (setManualTime (Num h) b c st) = max 0 (min 23 (trunc_real h))"
    by (simp add: setManualTime_def clampInt_Num)
next
  assume "- (2 ^ 31) \<le> trunc_real m \<and> trunc_real m < 2 ^ 31"
  then show "manualM (setManualTime a (Num m) c st) = max 0 (min 59 (trunc_real m))"
    by (simp add: setManualTime_def clampInt_Num)
next
  assume "- (2 ^ 31) \<le> trunc_real s \<and> trunc_real s < 2 ^ 31"
  then show "manualS (setManualTime a b (Num s) st) = max 0 (min 59 (trunc_real s))"
    by (simp add: setManualTime_def clampInt_Num)
qed (simp_all add: setManualTime_def clampInt_range)

text \<open>
  The theorem at \<open>(24, 2147483648, 0)\<close>, where the minute wraps and the hour is still
  clamped to 23; at \<open>(-1, 75.5, 30.9)\<close>; and at the valid triple \<open>(9, 5, 30)\<close>.
\<close>

theorem setManualTime_clamps_witness:
  "manualH (setManualTime (Num 24) (Num 2147483648) (Num 0) init) = 23
   \<and> manualS (setManualTime (Num 24) (Num 2147483648) (Num 0) init) = 0
   \<and> manualH (setManualTime (Num (- 1)) (Num 75.5) (Num 30.9) init) = 0
   \<and> manualM (setManualTime (Num (- 1)) (Num 75.5) (Num 30.9) init) = 59
   \<and> manualS (setManualTime (Num (- 1)) (Num 75.5) (Num 30.9) init) = 30
   \<and> manualH (setManualTime (Num 9) (Num 5) (Num 30) init) = 9
   \<and> manualM (setManualTime (Num 9) (Num 5) (Num 30) init) = 5
   \<and> manualS (setManualTime (Num 9) (Num 5) (Num 30) init) = 30
   \<and> \<not> useLiveTime (setManualTime (Num 9) (Num 5) (Num 30) init)"
  using
    setManualTime_clamps [of "Num 24" "Num 2147483648" "Num 0" init 24 "- 1" 0 9 5 30]
    setManualTime_clamps [of "Num (- 1)" "Num 75.5" "Num 30.9" init "- 1" "75.5" "30.9" 9 5 30]
  by (simp add: trunc_real_def)

text \<open>
  Where the claim as written fails: \<open>2147483648 | 0\<close> is \<open>-2147483648\<close>, so an hour of
  \<open>2^31\<close> is stored as 0 and not as the nearest boundary 23; and \<open>4294967301 | 0\<close> is 5,
  which is no boundary at all.
\<close>

theorem setManualTime_wraps_counterexample:
  "manualH (setManualTime (Num 2147483648) (Num 0) (Num 0) init) = 0
   \<and> manualH (setManualTime (Num 4294967301) (Num 0) (Num 0) init) = 5"
  by (simp add: setManualTime_def clampInt_def wrap_int32_def trunc_real_def init_def)

section \<open>Parsing a typed time\<close>

lemma digit_not_ws: "is_digit c \<Longrightarrow> \<not> is_ws c"
  by (auto simp: is_digit_def is_ws_def)

lemma digit_not_sign: "is_digit c \<Longrightarrow> c \<noteq> CHR ''-'' \<and> c \<noteq> CHR ''+''"
  by (auto simp: is_digit_def)

lemma parseInt10_digits:
  assumes "ds \<noteq> []" "\<forall>c\<in>set ds. is_digit c" "r = [] \<or> \<not> is_digit (hd r)"
  shows "parseInt10 (ds @ r) = Some (foldl (\<lambda>acc c. 10 * acc + digit_val c) 0 ds)"
proof -
  obtain d ds' where ds: "ds = d # ds'" using assms(1) by (cases ds) auto
  have d: "is_digit d" using assms(2) ds by simp
  have tw: "takeWhile is_digit (ds @ r) = ds"
    using assms(2,3) by (cases r) (simp_all add: takeWhile_append2)
  have dw: "dropWhile is_ws (ds @ r) = ds @ r"
    using d ds by (simp add: digit_not_ws)
  have hd: "hd (ds @ r) = d" using ds by simp
  show ?thesis
    unfolding parseInt10_def dw Let_def
    using digit_not_sign [OF d] tw assms(1) by (simp add: hd)
qed

lemma parseInt10_prefix:
  assumes "ds \<noteq> []" "\<forall>c\<in>set ds. is_digit c" "\<not> is_digit c"
  shows "parseInt10 (ds @ c # r) = parseInt10 ds"
  using parseInt10_digits [OF assms(1,2), of "c # r"] parseInt10_digits [OF assms(1,2), of "[]"] assms(3)
  by simp

lemma parseTimeString_range:
  assumes "parseTimeString str = Some p"
  shows "0 \<le> parsed_h p \<and> parsed_h p \<le> 23 \<and> 0 \<le> parsed_m p \<and> parsed_m p \<le> 59
      \<and> 0 \<le> parsed_s p \<and> parsed_s p \<le> 59
      \<and> (length (split_colon (trim str)) = 2 \<or> length (split_colon (trim str)) = 3)
      \<and> parseInt10 (split_colon (trim str) ! 0) = Some (parsed_h p)
      \<and> parseInt10 (split_colon (trim str) ! 1) = Some (parsed_m p)
      \<and> (length (split_colon (trim str)) = 2 \<longrightarrow> parsed_s p = 0)
      \<and> (length (split_colon (trim str)) = 3 \<longrightarrow> parseInt10 (split_colon (trim str) ! 2) = Some (parsed_s p))"
  using assms unfolding parseTimeString_def Let_def
  by (auto split: if_splits option.splits)

lemma parseTimeString_accepts:
  assumes "length (split_colon (trim str)) = 2 \<or> length (split_colon (trim str)) = 3"
    and "parseInt10 (split_colon (trim str) ! 0) = Some hv" "0 \<le> hv" "hv \<le> 23"
    and "parseInt10 (split_colon (trim str) ! 1) = Some mv" "0 \<le> mv" "mv \<le> 59"
    and "(if length (split_colon (trim str)) = 3 then parseInt10 (split_colon (trim str) ! 2) else Some 0) = Some sv"
      "0 \<le> sv" "sv \<le> 59"
  shows "parseTimeString str = Some (Parsed hv mv sv)"
  using assms unfolding parseTimeString_def Let_def
  by (auto split: if_splits option.splits)

text \<open>
  Claim C6. \<open>parseTimeString\<close> gives 9:05:00 for "9:05" and 9:05:30 for "09:05:30", and
  \<open>null\<close> for "25:00", "9:5:5:5" and the empty string. A result has its hour in 0..23 and
  its minute and second in 0..59, with second 0 when there are two components; a component
  that \<open>parseInt\<close> reads outside its range gives \<open>null\<close>.
\<close>

theorem parseTimeString_examples:
  "parseTimeString ''9:05'' = Some (Parsed 9 5 0)
   \<and> parseTimeString ''09:05:30'' = Some (Parsed 9 5 30)
   \<and> parseTimeString ''25:00'' = None
   \<and> parseTimeString ''9:5:5:5'' = None
   \<and> parseTimeString [] = None
   \<and> (parseTimeString str = Some p \<longrightarrow>
        0 \<le> parsed_h p \<and> parsed_h p \<le> 23 \<and> 0 \<le> parsed_m p \<and> parsed_m p \<le> 59
        \<and> 0 \<le> parsed_s p \<and> parsed_s p \<le> 59
        \<and> (length (split_colon (trim str)) = 2 \<longrightarrow> parsed_s p = 0))
   \<and> (parseInt10 (split_colon (trim str) ! 0) = Some hv \<and> (hv < 0 \<or> 23 < hv) \<longrightarrow>
        parseTimeString str = None)
   \<and> (parseInt10 (split_colon (trim str) ! 1) = Some mv \<and> (mv < 0 \<or> 59 < mv) \<longrightarrow>
        parseTimeString str = None)
   \<and> (length (split_colon (trim str)) = 3 \<and> parseInt10 (split_colon (trim str) ! 2) = Some sv
        \<and> (sv < 0 \<or> 59 < sv) \<longrightarrow> parseTimeString str = None)"
proof (intro conjI impI)
  show "parseTimeString ''9:05'' = Some (Parsed 9 5 0)" by code_simp
  show "parseTimeString ''09:05:30'' = Some (Parsed 9 5 30)" by code_simp
  show "parseTimeString ''25:00'' = None" by code_simp
  show "parseTimeString ''9:5:5:5'' = None" by code_simp
  show "parseTimeString [] = None" by code_simp
next
  assume a: "parseTimeString str = Some p"
  show "0 \<le> parsed_h p" "parsed_h p \<le> 23" "0 \<le> parsed_m p" "parsed_m p \<le> 59"
    "0 \<le> parsed_s p" "parsed_s p \<le> 59"
    using parseTimeString_range [OF a] by simp_all
  show "parsed_s p = 0" if "length (split_colon (trim str)) = 2"
    using parseTimeString_range [OF a] that by simp
next
  assume a: "parseInt10 (split_colon (trim str) ! 0) = Some hv \<and> (hv < 0 \<or> 23 < hv)"
  show "parseTimeString str = None"
  proof (cases "parseTimeString str")
    case (Some p)
    then show ?thesis using parseTimeString_range [OF Some] a by auto
  qed simp
next
  assume a: "parseInt10 (split_colon (trim str) ! 1) = Some mv \<and> (mv < 0 \<or> 59 < mv)"
  show "parseTimeString str = None"
  proof (cases "parseTimeString str")
    case (Some p)
    then show ?thesis using parseTimeString_range [OF Some] a by auto
  qed simp
next
  assume a: "length (split_colon (trim str)) = 3
     \<and> parseInt10 (split_colon (trim str) ! 2) = Some sv \<and> (sv < 0 \<or> 59 < sv)"
  show "parseTimeString str = None"
  proof (cases "parseTimeString str")
    case (Some p)
    then show ?thesis using parseTimeString_range [OF Some] a by auto
  qed simp
qed

text \<open>The theorem at "9:05" (a result in range, second 0) and at "25:00" (hour 25).\<close>

theorem parseTimeString_examples_witness:
  "parseTimeString ''9:05'' = Some (Parsed 9 5 0)
   \<and> length (split_colon (trim ''9:05'')) = 2
   \<and> parsed_s (Parsed 9 5 0) = 0
   \<and> parseInt10 (split_colon (trim ''25:00'') ! 0) = Some 25
   \<and> parseTimeString ''25:00'' = None"
proof -
  have 1: "parseTimeString ''9:05'' = Some (Parsed 9 5 0)" by code_simp
  have 2: "length (split_colon (trim ''9:05'')) = 2" by code_simp
  have 3: "parseInt10 (split_colon (trim ''25:00'') ! 0) = Some 25" by code_simp
  from parseTimeString_examples [of "''9:05''" "Parsed 9 5 0" 25 0 0] 1 2
  have 4: "parsed_s (Parsed 9 5 0) = 0" by blast
  from parseTimeString_examples [of "''25:00''" "Parsed 9 5 0" 25 0 0] 3
  have 5: "parseTimeString ''25:00'' = None" by simp
  show ?thesis using 1 2 3 4 5 by blast
qed

text \<open>
  Claim C10. Only the leading numeric prefix of each component is checked: when the trimmed
  string splits at the colons into two or three parts and \<open>parseInt\<close> reads each of them to
  a number in range, that time is returned; and \<open>parseInt\<close> reads a run of digits followed
  by any other character as the run of digits alone. So "9a:05" is 9:05:00.
\<close>

theorem parseTimeString_reads_prefixes:
  "((length (split_colon (trim str)) = 2 \<or> length (split_colon (trim str)) = 3)
     \<and> parseInt10 (split_colon (trim str) ! 0) = Some hv \<and> 0 \<le> hv \<and> hv \<le> 23
     \<and> parseInt10 (split_colon (trim str) ! 1) = Some mv \<and> 0 \<le> mv \<and> mv \<le> 59
     \<and> (if length (split_colon (trim str)) = 3 then parseInt10 (split_colon (trim str) ! 2)
         else Some 0) = Some sv \<and> 0 \<le> sv \<and> sv \<le> 59
     \<longrightarrow> parseTimeString str = Some (Parsed hv mv sv))
   \<and> (ds \<noteq> [] \<and> (\<forall>d\<in>set ds. is_digit d) \<and> \<not> is_digit c
     \<longrightarrow> parseInt10 (ds @ c # r) = parseInt10 ds)"
  using parseTimeString_accepts [of str hv mv sv] parseInt10_prefix [of ds c r]
  by blast

text \<open>The theorem at "9a:05": the parts are "9a" and "05", read as 9 and 5.\<close>

theorem parseTimeString_reads_prefixes_witness:
  "split_colon (trim ''9a:05'') = [''9a'', ''05'']
   \<and> parseInt10 ''9a'' = Some 9 \<and> parseInt10 ''05'' = Some 5
   \<and> parseTimeString ''9a:05'' = Some (Parsed 9 5 0)
   \<and> parseInt10 (''9'' @ CHR ''a'' # []) = parseInt10 ''9''"
proof -
  have 1: "split_colon (trim ''9a:05'') = [''9a'', ''05'']" by code_simp
  have 2: "parseInt10 ''9a'' = Some 9" by code_simp
  have 3: "parseInt10 ''05'' = Some 5" by code_simp
  have 4: "is_digit CHR ''9''" "\<not> is_digit CHR ''a''" by (simp_all add: is_digit_def)
  note t = parseTimeString_reads_prefixes [of "''9a:05''" 9 5 0 "''9''" "CHR ''a''" "[]"]
  from t 1 2 3 have 5: "parseTimeString ''9a:05'' = Some (Parsed 9 5 0)" by simp
  from t 4 have 6: "parseInt10 (''9'' @ CHR ''a'' # []) = parseInt10 ''9''" by simp
  show ?thesis using 1 2 3 5 6 by blast
qed

section \<open>Typing and roulette exclude each other\<close>

lemmas roulette_ops = rouletteStart_def rouletteBeginBrake_def rouletteStop_def
  setRandomTime_def setManualTime_def

lemma draw_typingMode: "typingMode (draw fr st) = typingMode st"
  by (simp add: draw_def viewport_update_def phase_update_def roulette_tick_def advance_clocks_def
      roulette_ops Let_def)

lemma draw_rouletteState:
  "rouletteState (draw fr st) = rouletteState st \<or> rouletteState (draw fr st) = Off"
  by (simp add: draw_def viewport_update_def phase_update_def roulette_tick_def advance_clocks_def
      roulette_ops Let_def)

lemma exclusive_keyPressed: "exclusive st \<Longrightarrow> exclusive (keyPressed ev st)"
  unfolding exclusive_def keyPressed_def
  by (simp add: roulette_ops Let_def split: option.splits)

lemma exclusive_draw: "exclusive st \<Longrightarrow> exclusive (draw fr st)"
  unfolding exclusive_def using draw_rouletteState [of fr st] by (auto simp: draw_typingMode)

lemma exclusive_step: "exclusive st \<Longrightarrow> exclusive (step e st)"
  by (cases e) (simp_all add: exclusive_keyPressed exclusive_draw)

lemma exclusive_run: "exclusive st \<Longrightarrow> exclusive (run es st)"
  by (induction es arbitrary: st) (simp_all add: exclusive_step)

lemma exclusive_init: "exclusive init"
  by (simp add: exclusive_def init_def)

lemma z_from_off:
  assumes "key ev = ''z'' \<or> key ev = ''Z''" "rouletteState st = Off"
  shows "keyPressed ev st = rouletteStart (keyMillis ev) st"
  using assms by (auto simp: keyPressed_def)

lemma t_key:
  assumes "key ev = ''t'' \<or> key ev = ''T''" 
  shows "rouletteState (keyPressed ev st) = Off \<and> typingMode (keyPressed ev st) = (\<not> typingMode st)"
  using assms by (auto simp: keyPressed_def roulette_ops Let_def)

text \<open>
  Claim C8. After any sequence of key events and frames from the initial state, typing
  mode and a running roulette (spin or brake) are not both on. Pressing Z with the roulette
  off starts it, ends typing mode, empties the typed buffer and leaves live time; pressing T
  to start typing stops the roulette.
\<close>

theorem typing_roulette_exclusive:
  "\<not> (typingMode (run es init) \<and> rouletteState (run es init) \<noteq> Off)
   \<and> ((key ev = ''z'' \<or> key ev = ''Z'') \<and> rouletteState st = Off \<longrightarrow>
        rouletteState (keyPressed ev st) = Spin \<and> \<not> typingMode (keyPressed ev st)
        \<and> timeInput (keyPressed ev st) = [] \<and> \<not> useLiveTime (keyPressed ev st))
   \<and> ((key ev = ''t'' \<or> key ev = ''T'') \<and> \<not> typingMode st \<longrightarrow>
        typingMode (keyPressed ev st) \<and> rouletteState (keyPressed ev st) = Off)"
proof (intro conjI impI)
  show "\<not> (typingMode (run es init) \<and> rouletteState (run es init) \<noteq> Off)"
    using exclusive_run [OF exclusive_init, of es] by (simp add: exclusive_def)
next
  assume a: "(key ev = ''z'' \<or> key ev = ''Z'') \<and> rouletteState st = Off"
  then have "keyPressed ev st = rouletteStart (keyMillis ev) st" by (simp add: z_from_off)
  then show "rouletteState (keyPressed ev st) = Spin" "\<not> typingMode (keyPressed ev st)"
    "timeInput (keyPressed ev st) = []" "\<not> useLiveTime (keyPressed ev st)"
    by (simp_all add: rouletteStart_def)
next
  assume a: "(key ev = ''t'' \<or> key ev = ''T'') \<and> \<not> typingMode st"
  then show "typingMode (keyPressed ev st)" "rouletteState (keyPressed ev st) = Off"
    using t_key [of ev st] by simp_all
qed

text \<open>The theorem at the initial state, for the keys Z and T.\<close>

theorem typing_roulette_exclusive_witness:
  "rouletteState (keyPressed \<lparr>key = ''z'', keyCode = 90, keyMillis = 0\<rparr> init) = Spin
   \<and> \<not> typingMode (keyPressed \<lparr>key = ''z'', keyCode = 90, keyMillis = 0\<rparr> init)
   \<and> \<not> useLiveTime (keyPressed \<lparr>key = ''z'', keyCode = 90, keyMillis = 0\<rparr> init)
   \<and> typingMode (keyPressed \<lparr>key = ''t'', keyCode = 84, keyMillis = 0\<rparr> init)
   \<and> rouletteState (keyPressed \<lparr>key = ''t'', keyCode = 84, keyMillis = 0\<rparr> init) = Off"
proof -
  have i: "rouletteState init = Off" "\<not> typingMode init" by (simp_all add: init_def)
  from typing_roulette_exclusive [of "[]" "\<lparr>key = ''z'', keyCode = 90, keyMillis = 0\<rparr>" init] i
  have 1: "rouletteState (keyPressed \<lparr>key = ''z'', keyCode = 90, keyMillis = 0\<rparr> init) = Spin
   \<and> \<not> typingMode (keyPressed \<lparr>key = ''z'', keyCode = 90, keyMillis = 0\<rparr> init)
   \<and> \<not> useLiveTime (keyPressed \<lparr>key = ''z'', keyCode = 90, keyMillis = 0\<rparr> init)"
    by simp
  from typing_roulette_exclusive [of "[]" "\<lparr>key = ''t'', keyCode = 84, keyMillis = 0\<rparr>" init] i
  have 2: "typingMode (keyPressed \<lparr>key = ''t'', keyCode = 84, keyMillis = 0\<rparr> init)
   \<and> rouletteState (keyPressed \<lparr>key = ''t'', keyCode = 84, keyMillis = 0\<rparr> init) = Off"
    by simp
  show ?thesis using 1 2 by blast
qed

section \<open>Roulette\<close>

lemma tick_due_advance: "tick_due fr (st\<lparr>animTime := a, fadeTimer := b\<rparr>) = tick_due fr st"
  by (simp add: tick_due_def)


























section \<open>Hour marker\<close>

lemma js_rem_range:
  assumes "0 \<le> a" "0 < b"
  shows "0 \<le> js_rem a b" "js_rem a b < b"
proof -
  have "0 \<le> a / b" using assms by simp
  then have t: "trunc_real (a / b) = \<lfloor>a / b\<rfloor>" by (simp add: trunc_real_def)
  have 1: "of_int \<lfloor>a / b\<rfloor> \<le> a / b" by linarith
  have 2: "a / b < of_int \<lfloor>a / b\<rfloor> + 1" by linarith
  have "b * of_int \<lfloor>a / b\<rfloor> \<le> b * (a / b)" using 1 assms(2) by (intro mult_left_mono) simp_all
  then show "0 \<le> js_rem a b" using assms(2) by (simp add: js_rem_def t)
  have "b * (a / b) < b * (of_int \<lfloor>a / b\<rfloor> + 1)" using 2 assms(2) by (intro mult_strict_left_mono) simp_all
  then show "js_rem a b < b" using assms(2) by (simp add: js_rem_def t algebra_simps)
qed


declare hour_walk.simps [simp del]

lemma perim_sum: "perim pts = edge_len pts 0 + edge_len pts 1 + edge_len pts 2 + edge_len pts 3"
  by (simp add: perim_def upt_rec numeral_2_eq_2 numeral_3_eq_3)

lemma cum_len_4:
  "cum_len pts 4 = edge_len pts 0 + edge_len pts 1 + edge_len pts 2 + edge_len pts 3"
proof -
  have "cum_len pts (Suc (Suc (Suc (Suc 0)))) =
      edge_len pts 0 + edge_len pts (Suc 0) + edge_len pts (Suc (Suc 0)) + edge_len pts (Suc (Suc (Suc 0)))"
    by simp
  then show ?thesis by (simp add: eval_nat_numeral)
qed

lemma perim_cum: "perim pts = cum_len pts 4"
  by (simp add: perim_sum cum_len_4)

lemma walk_hit:
  assumes "i < 4" "aH \<le> l + edge_len pts i" "edge_len pts i \<noteq> 0"
  shows "hour_walk pts aH i l =
    Some (vec_lerp (pts ! i) (pts ! ((i + 1) mod 4)) ((aH - l) / edge_len pts i))"
  using assms by (subst hour_walk.simps) (simp add: edge_len_def Let_def)

lemma walk_miss:
  assumes "i < 4" "\<not> aH \<le> l + edge_len pts i"
  shows "hour_walk pts aH i l = hour_walk pts aH (Suc i) (l + edge_len pts i)"
  using assms by (subst hour_walk.simps) (simp add: edge_len_def Let_def)

lemma walk_from:
  assumes "i \<le> k" "k < 4" "\<forall>j. i \<le> j \<and> j < k \<longrightarrow> cum_len pts (Suc j) < aH"
    "aH \<le> cum_len pts (Suc k)" "edge_len pts k \<noteq> 0"
  shows "hour_walk pts aH i (cum_len pts i) =
    Some (vec_lerp (pts ! k) (pts ! ((k + 1) mod 4)) ((aH - cum_len pts k) / edge_len pts k))"
  using assms
proof (induction "k - i" arbitrary: i)
  case 0
  then have "i = k" by simp
  then show ?case using 0 by (simp add: walk_hit)
next
  case (Suc n)
  then have lt: "i < k" by simp
  then have miss: "\<not> aH \<le> cum_len pts i + edge_len pts i"
    using Suc.prems(3) by (auto simp: not_le)
  have "hour_walk pts aH i (cum_len pts i) = hour_walk pts aH (Suc i) (cum_len pts (Suc i))"
    using walk_miss [OF _ miss] lt Suc.prems(2) by simp
  also have "\<dots> = Some (vec_lerp (pts ! k) (pts ! ((k + 1) mod 4)) ((aH - cum_len pts k) / edge_len pts k))"
    using Suc.hyps(2) lt Suc.prems by (intro Suc.hyps(1)) auto
  finally show ?case .
qed

lemma cum_len_mono:
  assumes "\<forall>i<4. 0 < edge_len pts i" "i \<le> j" "j \<le> 4"
  shows "cum_len pts i \<le> cum_len pts j"
  using assms(2,3)
proof (induction j)
  case 0
  then show ?case by simp
next
  case (Suc j)
  show ?case
  proof (cases "i = Suc j")
    case True
    then show ?thesis by simp
  next
    case False
    then have "cum_len pts i \<le> cum_len pts j" using Suc by simp
    moreover have "0 < edge_len pts j" using assms(1) Suc.prems by simp
    ultimately show ?thesis by simp
  qed
qed

lemma first_edge:
  assumes "aH \<le> cum_len pts 4"
  shows "\<exists>k<4. aH \<le> cum_len pts (Suc k) \<and> (\<forall>j<k. cum_len pts (Suc j) < aH)"
proof -
  define k where "k = (LEAST k. aH \<le> cum_len pts (Suc k))"
  have ex: "aH \<le> cum_len pts (Suc 3)" using assms by (simp add: numeral_eq_Suc)
  have 1: "aH \<le> cum_len pts (Suc k)" unfolding k_def by (rule LeastI [of _ 3]) (rule ex)
  have 2: "k \<le> 3" unfolding k_def by (rule Least_le) (rule ex)
  have 3: "\<forall>j<k. cum_len pts (Suc j) < aH"
  proof (intro allI impI)
    fix j assume "j < k"
    then have "\<not> aH \<le> cum_len pts (Suc j)" unfolding k_def by (rule not_less_Least)
    then show "cum_len pts (Suc j) < aH" by simp
  qed
  show ?thesis using 1 2 3 by (intro exI [of _ k]) simp
qed

lemma dist_p5_pos: "x1 \<noteq> x2 \<or> y1 \<noteq> y2 \<Longrightarrow> 0 < dist_p5 x1 y1 x2 y2"
proof -
  assume a: "x1 \<noteq> x2 \<or> y1 \<noteq> y2"
  have "0 < (x2 - x1)\<^sup>2 + (y2 - y1)\<^sup>2"
    using a by (auto simp: sum_power2_gt_zero_iff)
  then show ?thesis by (simp add: dist_p5_def)
qed

lemma dist_p5_lerp:
  assumes "0 \<le> f"
  shows "dist_p5 (vx a) (vy a) (vx (vec_lerp a b f)) (vy (vec_lerp a b f)) =
         f * dist_p5 (vx a) (vy a) (vx b) (vy b)"
proof -
  have "((vx b - vx a) * f)\<^sup>2 + ((vy b - vy a) * f)\<^sup>2 = f\<^sup>2 * ((vx b - vx a)\<^sup>2 + (vy b - vy a)\<^sup>2)"
    by (simp add: power2_eq_square algebra_simps)
  then have "dist_p5 (vx a) (vy a) (vx (vec_lerp a b f)) (vy (vec_lerp a b f)) =
      sqrt (f\<^sup>2 * ((vx b - vx a)\<^sup>2 + (vy b - vy a)\<^sup>2))"
    by (simp add: dist_p5_def vec_lerp_def)
  also have "\<dots> = \<bar>f\<bar> * sqrt ((vx b - vx a)\<^sup>2 + (vy b - vy a)\<^sup>2)"
    by (simp add: real_sqrt_mult)
  finally show ?thesis using assms by (simp add: dist_p5_def)
qed

lemma unit_wave_ge: "0 \<le> (sin x + 1) * (0.5::real)"
proof -
  have "0 \<le> sin x + 1" using sin_ge_minus_one [of x] by linarith
  then show ?thesis by simp
qed

lemma unit_wave_le: "(sin x + 1) * 0.5 \<le> (1::real)"
proof -
  have "sin x + 1 \<le> 2" using sin_le_one [of x] by linarith
  then show ?thesis by simp
qed

lemmas unit_wave = unit_wave_ge unit_wave_le

lemma hour_pts_shape:
  fixes t :: real
  defines "T \<equiv> (sin (t * 0.5) + 1) * 0.5"
    and "K \<equiv> (sin (t * 0.8 + pi / 3) + 1) * 0.5"
    and "R \<equiv> (sin (t * 0.6 + pi / 5) + 1) * 0.5"
  defines "a0 \<equiv> - 180 * (1 + R * 0.3) - K * 50"
    and "b1 \<equiv> - 180 * (1 + R * 0.2) - K * 30"
  defines "mx \<equiv> a0 + (180 - a0) * 0.5" and "my \<equiv> - 180 + (b1 + 180) * 0.5"
  shows "hour_pts t =
    [Vec (a0 + (mx - a0) * (T * 0.9)) (- 180 + (my + 180) * (T * 0.9)) 0,
     Vec (180 + (mx - 180) * (T * 0.9)) (b1 + (my - b1) * (T * 0.9)) 0,
     Vec (180 * (1 + R * 0.3) + K * 50) 180 0,
     Vec (- 180) (180 * (1 + R * 0.2) + K * 30) 0]"
  unfolding hour_pts_def Let_def createVector_def vec_lerp_def mx_def my_def a0_def b1_def
    T_def K_def R_def
  by simp

lemma edge_len_4:
  assumes "pts = [p0, p1, p2, p3]"
  shows "edge_len pts 0 = dist_p5 (vx p0) (vy p0) (vx p1) (vy p1)"
    "edge_len pts 1 = dist_p5 (vx p1) (vy p1) (vx p2) (vy p2)"
    "edge_len pts 2 = dist_p5 (vx p2) (vy p2) (vx p3) (vy p3)"
    "edge_len pts 3 = dist_p5 (vx p3) (vy p3) (vx p0) (vy p0)"
  by (simp_all add: edge_len_def assms)

lemma hour_pts_edges:
  assumes "i < 4"
  shows "0 < edge_len (hour_pts t) i"
proof -
  define T where "T = (sin (t * 0.5) + 1) * 0.5"
  define K where "K = (sin (t * 0.8 + pi / 3) + 1) * 0.5"
  define R where "R = (sin (t * 0.6 + pi / 5) + 1) * 0.5"
  define a0 where "a0 = - 180 * (1 + R * 0.3) - K * 50"
  define b1 where "b1 = - 180 * (1 + R * 0.2) - K * 30"
  define mx where "mx = a0 + (180 - a0) * 0.5"
  define my where "my = - 180 + (b1 + 180) * 0.5"
  define s where "s = T * 0.9"
  have T: "0 \<le> T" "T \<le> 1" and K: "0 \<le> K" "K \<le> 1" and R: "0 \<le> R" "R \<le> 1"
    unfolding T_def K_def R_def by (rule unit_wave)+
  have s: "0 \<le> s" "s \<le> 0.9" using T by (simp_all add: s_def)
  have a0: "a0 \<le> - 180" using K R by (simp add: a0_def)
  have b1: "b1 \<le> - 180" using K R by (simp add: b1_def)
  have my: "my \<le> - 180" using b1 by (simp add: my_def)
  have pts: "hour_pts t =
    [Vec (a0 + (mx - a0) * s) (- 180 + (my + 180) * s) 0,
     Vec (180 + (mx - 180) * s) (b1 + (my - b1) * s) 0,
     Vec (180 * (1 + R * 0.3) + K * 50) 180 0,
     Vec (- 180) (180 * (1 + R * 0.2) + K * 30) 0]"
    unfolding s_def mx_def my_def a0_def b1_def T_def K_def R_def by (rule hour_pts_shape)
  \<comment> \<open>edge 0: the two top vertices keep different x\<close>
  have "(180 + (mx - 180) * s) - (a0 + (mx - a0) * s) = (180 - a0) * (1 - s)"
    by (simp add: algebra_simps)
  moreover have "0 < (180 - a0) * (1 - s)"
    using a0 s by (intro mult_pos_pos) simp_all
  ultimately have e0: "a0 + (mx - a0) * s \<noteq> 180 + (mx - 180) * s" by linarith
  \<comment> \<open>edge 1: the top right vertex stays above the right one\<close>
  have "b1 + (my - b1) * s = (1 - s) * b1 + s * my" by (simp add: algebra_simps)
  moreover have "(1 - s) * b1 \<le> (1 - s) * (- 180)" using b1 s by (intro mult_left_mono) simp_all
  moreover have "s * my \<le> s * (- 180)" using my s by (intro mult_left_mono) simp_all
  ultimately have y1: "b1 + (my - b1) * s \<le> - 180" by (simp add: algebra_simps)
  \<comment> \<open>edge 3: the top left vertex stays above the left one\<close>
  have "(my + 180) * s \<le> 0" using my s by (intro mult_nonpos_nonneg) simp_all
  then have y0: "- 180 + (my + 180) * s \<le> - 180" by simp
  have x2: "180 \<le> 180 * (1 + R * 0.3) + K * 50" using K R by simp
  have y3: "180 \<le> 180 * (1 + R * 0.2) + K * 30" using K R by simp
  note el = edge_len_4 [OF pts]
  consider "i = 0" | "i = 1" | "i = 2" | "i = 3" using assms by linarith
  then show ?thesis
  proof cases
    case 1
    show ?thesis unfolding 1 el(1) vec.sel by (rule dist_p5_pos) (rule disjI1, rule e0)
  next
    case 2
    have "b1 + (my - b1) * s \<noteq> 180" using y1 by linarith
    then show ?thesis unfolding 2 el(2) vec.sel by (intro dist_p5_pos disjI2)
  next
    case 3
    have "180 * (1 + R * 0.3) + K * 50 \<noteq> - 180" using x2 by linarith
    then show ?thesis unfolding 3 el(3) vec.sel by (intro dist_p5_pos disjI1)
  next
    case 4
    have "180 * (1 + R * 0.2) + K * 30 \<noteq> - 180 + (my + 180) * s" using y0 y3 by linarith
    then show ?thesis unfolding 4 el(4) vec.sel by (intro dist_p5_pos disjI2)
  qed
qed

lemma aH_now_range:
  assumes "0 \<le> H12 fr st"
  shows "aH_now fr st = js_rem (H12 fr st) 12 / 12 * perim (pts_now fr)"
    "0 \<le> aH_now fr st" "aH_now fr st \<le> perim (pts_now fr)"
proof -
  have r: "0 \<le> js_rem (H12 fr st) 12" "js_rem (H12 fr st) 12 < 12"
    using js_rem_range [OF assms, of 12] by simp_all
  have p: "0 < perim (pts_now fr)"
    using hour_pts_edges [of _ "millis fr * 0.001"]
    by (simp add: perim_sum pts_now_def add_pos_pos)
  show e: "aH_now fr st = js_rem (H12 fr st) 12 / 12 * perim (pts_now fr)"
    by (simp add: aH_now_def map_p5_def)
  have f: "0 \<le> js_rem (H12 fr st) 12 / 12" "js_rem (H12 fr st) 12 / 12 \<le> 1"
    using r by simp_all
  show "0 \<le> aH_now fr st" unfolding e using f(1) p by (intro mult_nonneg_nonneg) simp_all
  have "js_rem (H12 fr st) 12 / 12 * perim (pts_now fr) \<le> 1 * perim (pts_now fr)"
    using f(2) p by (intro mult_right_mono) simp_all
  then show "aH_now fr st \<le> perim (pts_now fr)" unfolding e by simp
qed

text \<open>
  Claim C4. With \<open>H12 = (hNow mod 12) + (mNow + S / 60) / 60\<close> not negative, the target
  arclength is \<open>(H12 mod 12) / 12\<close> of the perimeter, the perimeter is the sum of the four
  edge lengths, and the hour marker exists and lies on the first edge \<open>i\<close> whose end is at or
  beyond the target: it is the linear interpolation between the two vertices of that edge,
  and the length of the edges before it plus its distance from the edge's first vertex is
  the target arclength. This holds for the vertices \<open>draw\<close> computes at every time: all four
  edges of the deformed quadrilateral have positive length.
\<close>

theorem hour_marker_on_perimeter:
  assumes "0 \<le> H12 fr st"
  shows "H12 fr st = js_rem (of_int (hNow fr st)) 12 + (of_int (mNow fr st) + S_now fr st / 60) / 60
    \<and> perim (pts_now fr) = edge_len (pts_now fr) 0 + edge_len (pts_now fr) 1
        + edge_len (pts_now fr) 2 + edge_len (pts_now fr) 3
    \<and> aH_now fr st = js_rem (H12 fr st) 12 / 12 * perim (pts_now fr)
    \<and> (\<exists>i<4. \<exists>m.
          hourMarker fr st = Some m
        \<and> m = vec_lerp (pts_now fr ! i) (pts_now fr ! ((i + 1) mod 4))
                ((aH_now fr st - cum_len (pts_now fr) i) / edge_len (pts_now fr) i)
        \<and> cum_len (pts_now fr) i \<le> aH_now fr st
        \<and> aH_now fr st \<le> cum_len (pts_now fr) (Suc i)
        \<and> (\<forall>j<i. cum_len (pts_now fr) (Suc j) < aH_now fr st)
        \<and> cum_len (pts_now fr) i
            + dist_p5 (vx (pts_now fr ! i)) (vy (pts_now fr ! i)) (vx m) (vy m) = aH_now fr st)"
proof (intro conjI)
  show "H12 fr st = js_rem (of_int (hNow fr st)) 12 + (of_int (mNow fr st) + S_now fr st / 60) / 60"
    by (simp add: H12_def M_now_def)
  show "perim (pts_now fr) = edge_len (pts_now fr) 0 + edge_len (pts_now fr) 1
        + edge_len (pts_now fr) 2 + edge_len (pts_now fr) 3"
    by (rule perim_sum)
  show "aH_now fr st = js_rem (H12 fr st) 12 / 12 * perim (pts_now fr)"
    by (rule aH_now_range(1) [OF assms])
  let ?pts = "pts_now fr" and ?aH = "aH_now fr st"
  have pos: "\<And>i. i < 4 \<Longrightarrow> 0 < edge_len ?pts i"
    unfolding pts_now_def by (rule hour_pts_edges)
  have le: "?aH \<le> cum_len ?pts 4" using aH_now_range(3) [OF assms] by (simp add: perim_cum)
  from first_edge [OF le] obtain k where k: "k < 4" "?aH \<le> cum_len ?pts (Suc k)"
    "\<forall>j<k. cum_len ?pts (Suc j) < ?aH" by blast
  define m where "m = vec_lerp (?pts ! k) (?pts ! ((k + 1) mod 4))
                ((?aH - cum_len ?pts k) / edge_len ?pts k)"
  have d: "0 < edge_len ?pts k" using pos k(1) by simp
  have "hour_walk ?pts ?aH 0 (cum_len ?pts 0) = Some m"
    unfolding m_def using k d by (intro walk_from) simp_all
  then have hm: "hourMarker fr st = Some m" by (simp add: hourMarker_def)
  have lo: "cum_len ?pts k \<le> ?aH"
  proof (cases k)
    case 0
    then show ?thesis using aH_now_range(2) [OF assms] by simp
  next
    case (Suc j)
    then show ?thesis using k(3) by (simp add: less_imp_le)
  qed
  have f: "0 \<le> (?aH - cum_len ?pts k) / edge_len ?pts k" using lo d by simp
  have "dist_p5 (vx (?pts ! k)) (vy (?pts ! k)) (vx m) (vy m) =
      (?aH - cum_len ?pts k) / edge_len ?pts k * edge_len ?pts k"
    unfolding m_def using dist_p5_lerp [OF f] by (simp add: edge_len_def Let_def)
  also have "\<dots> = ?aH - cum_len ?pts k" using d by simp
  finally have arc: "cum_len ?pts k + dist_p5 (vx (?pts ! k)) (vy (?pts ! k)) (vx m) (vy m) = ?aH"
    by simp
  show "\<exists>i<4. \<exists>m.
          hourMarker fr st = Some m
        \<and> m = vec_lerp (?pts ! i) (?pts ! ((i + 1) mod 4))
                ((?aH - cum_len ?pts i) / edge_len ?pts i)
        \<and> cum_len ?pts i \<le> ?aH
        \<and> ?aH \<le> cum_len ?pts (Suc i)
        \<and> (\<forall>j<i. cum_len ?pts (Suc j) < ?aH)
        \<and> cum_len ?pts i + dist_p5 (vx (?pts ! i)) (vy (?pts ! i)) (vx m) (vy m) = ?aH"
    using k hm lo arc m_def by (intro exI [of _ k] exI [of _ m]) simp
qed

text \<open>The theorem in live mode at 22:20, with \<open>millis() = 0\<close>: \<open>H12\<close> is 10 + 1/3.\<close>

theorem hour_marker_on_perimeter_witness:
  "H12 \<lparr>deltaTime = 16, millis = 0, width = 1080, height = 1460,
        random24 = 0, random60a = 0, random60b = 0, hour = 22, minute = 20, second = 30\<rparr> init = 31 / 3
   \<and> (\<exists>m. hourMarker \<lparr>deltaTime = 16, millis = 0, width = 1080, height = 1460,
        random24 = 0, random60a = 0, random60b = 0, hour = 22, minute = 20, second = 30\<rparr> init = Some m)"
proof -
  let ?fr = "\<lparr>deltaTime = 16, millis = 0, width = 1080, height = 1460,
        random24 = 0, random60a = 0, random60b = 0, hour = 22, minute = 20, second = 30\<rparr>"
  have h: "H12 ?fr init = 31 / 3"
    by (simp add: H12_def M_now_def S_now_def hNow_def mNow_def init_def js_rem_def trunc_real_def)
  then have p: "0 \<le> H12 ?fr init" by simp
  from hour_marker_on_perimeter [OF p] have "\<exists>m. hourMarker ?fr init = Some m" by blast
  with h show ?thesis by blast
qed

section \<open>Phase lock\<close>

lemma auto_alphas_fl_exact: "auto_alphas_fl (\<lambda>x. x) c = auto_alphas c"
  by (simp add: auto_alphas_fl_def auto_alphas_def map_p5_fl_def map_p5_def)

lemma draw_fl_exact: "draw_fl (\<lambda>x. x) fr st = draw fr st"
  by (simp add: draw_fl_def draw_def advance_clocks_fl_def advance_clocks_def
      phase_update_fl_def phase_update_def auto_alphas_fl_exact Let_def)

lemma draw_fl_fadeTimer:
  "fadeTimer (draw_fl rnd fr st) = rnd (fadeTimer st + rnd (deltaTime fr / 1000))"
  by (simp add: draw_fl_def viewport_update_def phase_update_fl_def roulette_tick_def
      advance_clocks_fl_def tick_due_advance roulette_ops Let_def)

lemma keyPressed_fadeTimer: "fadeTimer (keyPressed ev st) = fadeTimer st"
  unfolding keyPressed_def by (simp add: roulette_ops Let_def split: option.splits)

lemma run_fl_fadeTimer: "fadeTimer (run_fl rnd es st) = accumulate rnd (fadeTimer st) es"
proof (induction es arbitrary: st)
  case Nil
  show ?case by simp
next
  case (Cons e es)
  show ?case by (cases e) (simp_all add: Cons.IH draw_fl_fadeTimer keyPressed_fadeTimer)
qed

lemma accumulate_snoc:
  "accumulate rnd t (es @ [Frame fr]) = rnd (accumulate rnd t es + rnd (deltaTime fr / 1000))"
proof (induction es arbitrary: t)
  case Nil
  show ?case by simp
next
  case (Cons e es)
  show ?case by (cases e) (simp_all add: Cons.IH)
qed

lemma tick_phase_fields:
  "phaseMode (roulette_tick fr st) = phaseMode st"
  "manualPhaseEnabled (roulette_tick fr st) = manualPhaseEnabled st"
  "fadeTimer (roulette_tick fr st) = fadeTimer st"
  by (simp_all add: roulette_tick_def roulette_ops Let_def)

lemma draw_fl_locked_geo:
  assumes "phaseMode st = Geo"
  shows "geoAlpha (draw_fl rnd fr st) = 255" "triContentAlpha (draw_fl rnd fr st) = 0"
  using assms
  by (simp_all add: draw_fl_def viewport_update_def phase_update_fl_def tick_phase_fields
      advance_clocks_fl_def Let_def)

lemma draw_fl_locked_tri:
  assumes "phaseMode st = Tri"
  shows "geoAlpha (draw_fl rnd fr st) = 0" "triContentAlpha (draw_fl rnd fr st) = 255"
  using assms
  by (simp_all add: draw_fl_def viewport_update_def phase_update_fl_def tick_phase_fields
      advance_clocks_fl_def Let_def)

lemma draw_fl_auto:
  assumes "\<not> manualPhaseEnabled st" "phaseMode st = Auto"
  shows "geoAlpha (draw_fl rnd fr st) = fst (auto_alphas_fl rnd (cycleTime (draw_fl rnd fr st)))"
    "triContentAlpha (draw_fl rnd fr st) = snd (auto_alphas_fl rnd (cycleTime (draw_fl rnd fr st)))"
  unfolding cycleTime_def draw_fl_fadeTimer
  using assms
  by (simp_all add: draw_fl_def viewport_update_def phase_update_fl_def tick_phase_fields
      advance_clocks_fl_def Let_def)

text \<open>
  Claim C7. With the phase locked, \<open>draw\<close> pins the alphas whatever the clock shows: 255 and
  0 for GEO, 0 and 255 for TRI. The cycle clock \<open>fadeTimer\<close> advances by the frame time in
  every frame, locked or not, and no key touches it, so after any events it is what the
  frames alone add up to from the start value; and once the state is back in AUTO the next
  frame takes its alphas from the schedule at that accumulated time modulo 23. All of it
  holds whatever the rounding of the arithmetic is.
\<close>

theorem phase_lock_keeps_clock:
  "(phaseMode st = Geo \<longrightarrow>
      geoAlpha (draw_fl rnd fr st) = 255 \<and> triContentAlpha (draw_fl rnd fr st) = 0)
   \<and> (phaseMode st = Tri \<longrightarrow>
      geoAlpha (draw_fl rnd fr st) = 0 \<and> triContentAlpha (draw_fl rnd fr st) = 255)
   \<and> fadeTimer (draw_fl rnd fr st) = rnd (fadeTimer st + rnd (deltaTime fr / 1000))
   \<and> fadeTimer (keyPressed ev st) = fadeTimer st
   \<and> fadeTimer (run_fl rnd es st) = accumulate rnd (fadeTimer st) es
   \<and> (\<not> manualPhaseEnabled (run_fl rnd es st) \<and> phaseMode (run_fl rnd es st) = Auto \<longrightarrow>
        geoAlpha (draw_fl rnd fr (run_fl rnd es st)) =
          fst (auto_alphas_fl rnd (js_rem (accumulate rnd (fadeTimer st) (es @ [Frame fr])) 23))
        \<and> triContentAlpha (draw_fl rnd fr (run_fl rnd es st)) =
          snd (auto_alphas_fl rnd (js_rem (accumulate rnd (fadeTimer st) (es @ [Frame fr])) 23)))"
proof -
  have c: "cycleTime (draw_fl rnd fr (run_fl rnd es st)) =
      js_rem (accumulate rnd (fadeTimer st) (es @ [Frame fr])) 23"
    by (simp add: cycleTime_def draw_fl_fadeTimer run_fl_fadeTimer accumulate_snoc)
  show ?thesis
    using draw_fl_locked_geo [of st rnd fr] draw_fl_locked_tri [of st rnd fr]
      draw_fl_auto [of "run_fl rnd es st" rnd fr]
    unfolding c
    by (simp add: draw_fl_fadeTimer keyPressed_fadeTimer run_fl_fadeTimer)
qed

text \<open>
  The theorem from the initial state, at inputs where no operation rounds: key 2 locks TRI,
  five seconds pass, key 3 returns to AUTO, and the next one-second frame is at cycle
  position 6 (alphas 0 and 255), not at position 1 of a restarted cycle (where \<open>geoAlpha\<close>
  would be 85).
\<close>

theorem phase_lock_keeps_clock_witness:
  "triContentAlpha (draw_fl (\<lambda>x. x) \<lparr>deltaTime = 1000, millis = 6000, width = 1080, height = 1460,
        random24 = 0, random60a = 0, random60b = 0, hour = 10, minute = 20, second = 30\<rparr>
      (keyPressed \<lparr>key = ''2'', keyCode = 50, keyMillis = 0\<rparr> init)) = 255
   \<and> fadeTimer (run_fl (\<lambda>x. x) [Key \<lparr>key = ''2'', keyCode = 50, keyMillis = 0\<rparr>,
        Frame \<lparr>deltaTime = 5000, millis = 5000, width = 1080, height = 1460,
          random24 = 0, random60a = 0, random60b = 0, hour = 10, minute = 20, second = 30\<rparr>,
        Key \<lparr>key = ''3'', keyCode = 51, keyMillis = 5000\<rparr>] init) = 5
   \<and> geoAlpha (draw_fl (\<lambda>x. x) \<lparr>deltaTime = 1000, millis = 6000, width = 1080, height = 1460,
        random24 = 0, random60a = 0, random60b = 0, hour = 10, minute = 20, second = 30\<rparr>
      (run_fl (\<lambda>x. x) [Key \<lparr>key = ''2'', keyCode = 50, keyMillis = 0\<rparr>,
        Frame \<lparr>deltaTime = 5000, millis = 5000, width = 1080, height = 1460,
          random24 = 0, random60a = 0, random60b = 0, hour = 10, minute = 20, second = 30\<rparr>,
        Key \<lparr>key = ''3'', keyCode = 51, keyMillis = 5000\<rparr>] init)) = 0
   \<and> triContentAlpha (draw_fl (\<lambda>x. x) \<lparr>deltaTime = 1000, millis = 6000, width = 1080, height = 1460,
        random24 = 0, random60a = 0, random60b = 0, hour = 10, minute = 20, second = 30\<rparr>
      (run_fl (\<lambda>x. x) [Key \<lparr>key = ''2'', keyCode = 50, keyMillis = 0\<rparr>,
        Frame \<lparr>deltaTime = 5000, millis = 5000, width = 1080, height = 1460,
          random24 = 0, random60a = 0, random60b = 0, hour = 10, minute = 20, second = 30\<rparr>,
        Key \<lparr>key = ''3'', keyCode = 51, keyMillis = 5000\<rparr>] init)) = 255
   \<and> fst (auto_alphas_fl (\<lambda>x. x) (js_rem 1 23)) = 85"
proof -
  let ?k2 = "\<lparr>key = ''2'', keyCode = 50, keyMillis = 0\<rparr>"
  let ?k3 = "\<lparr>key = ''3'', keyCode = 51, keyMillis = 5000\<rparr>"
  let ?f5 = "\<lparr>deltaTime = 5000, millis = 5000, width = 1080, height = 1460,
          random24 = 0, random60a = 0, random60b = 0, hour = 10, minute = 20, second = 30\<rparr>"
  let ?f1 = "\<lparr>deltaTime = 1000, millis = 6000, width = 1080, height = 1460,
        random24 = 0, random60a = 0, random60b = 0, hour = 10, minute = 20, second = 30\<rparr>"
  let ?es = "[Key ?k2, Frame ?f5, Key ?k3]"
  have lock: "phaseMode (keyPressed ?k2 init) = Tri" by (simp add: keyPressed_def)
  have auto: "\<not> manualPhaseEnabled (run_fl (\<lambda>x. x) ?es init)"
    "phaseMode (run_fl (\<lambda>x. x) ?es init) = Auto"
    by (simp_all add: keyPressed_def)
  have el: "accumulate (\<lambda>x. x) (fadeTimer init) ?es = 5"
    "accumulate (\<lambda>x. x) (fadeTimer init) (?es @ [Frame ?f1]) = 6"
    by (simp_all add: init_def)
  have a6: "auto_alphas_fl (\<lambda>x. x) (js_rem 6 23) = (0, 255)"
    by (simp add: auto_alphas_fl_def js_rem_def trunc_real_def)
  have a1: "fst (auto_alphas_fl (\<lambda>x. x) (js_rem 1 23)) = 85"
    by (simp add: auto_alphas_fl_def js_rem_def trunc_real_def map_p5_fl_def)
  from phase_lock_keeps_clock [of "keyPressed ?k2 init" "\<lambda>x. x" ?f1 ?k3 "[]"] lock
  have 1: "triContentAlpha (draw_fl (\<lambda>x. x) ?f1 (keyPressed ?k2 init)) = 255" by blast
  note t = phase_lock_keeps_clock [of init "\<lambda>x. x" ?f1 ?k3 ?es]
  from t have 2: "fadeTimer (run_fl (\<lambda>x. x) ?es init) = 5" unfolding el by blast
  from t auto have "geoAlpha (draw_fl (\<lambda>x. x) ?f1 (run_fl (\<lambda>x. x) ?es init)) =
          fst (auto_alphas_fl (\<lambda>x. x) (js_rem (accumulate (\<lambda>x. x) (fadeTimer init) (?es @ [Frame ?f1])) 23))
        \<and> triContentAlpha (draw_fl (\<lambda>x. x) ?f1 (run_fl (\<lambda>x. x) ?es init)) =
          snd (auto_alphas_fl (\<lambda>x. x) (js_rem (accumulate (\<lambda>x. x) (fadeTimer init) (?es @ [Frame ?f1])) 23))"
    by blast
  then have 3: "geoAlpha (draw_fl (\<lambda>x. x) ?f1 (run_fl (\<lambda>x. x) ?es init)) = 0
      \<and> triContentAlpha (draw_fl (\<lambda>x. x) ?f1 (run_fl (\<lambda>x. x) ?es init)) = 255"
    unfolding el a6 by simp
  show ?thesis using 1 2 3 a1 by blast
qed

section \<open>Automatic phase schedule\<close>

lemma roundingD:
  assumes "rounding rnd"
  shows "x \<le> y \<Longrightarrow> rnd x \<le> rnd y" "rnd (rnd x) = rnd x"
    "rnd 0 = 0" "rnd 1 = 1" "rnd (3 / 2) = 3 / 2" "rnd 255 = 255" "rnd (- 255) = - 255"
  using assms by (auto simp: rounding_def mono_def)

lemma rounding_exact: "rounding (\<lambda>x. x)"
  by (simp add: rounding_def mono_def)

lemma map_lerp_fl:
  assumes "rounding rnd" "rnd f = f"
  shows "map_p5_fl rnd f 0 1 a b = lerp_fl rnd a b f"
  using assms roundingD(4) [OF assms(1)]
  by (simp add: map_p5_fl_def lerp_fl_def mult.commute add.commute)

lemma auto_alphas_fl_windows:
  assumes "rounding rnd"
  shows "c < 1.5 \<Longrightarrow> auto_alphas_fl rnd c = (\<lfloor>lerp_fl rnd 255 0 (rnd (c / 1.5))\<rfloor>, 0)"
    "1.5 \<le> c \<Longrightarrow> c < 11.5 \<Longrightarrow> auto_alphas_fl rnd c = (0, 255)"
    "11.5 \<le> c \<Longrightarrow> c < 13 \<Longrightarrow>
       auto_alphas_fl rnd c = (0, \<lfloor>lerp_fl rnd 255 0 (rnd (rnd (c - 11.5) / 1.5))\<rfloor>)"
    "13 \<le> c \<Longrightarrow> c < 14.5 \<Longrightarrow>
       auto_alphas_fl rnd c = (\<lfloor>lerp_fl rnd 0 255 (rnd (rnd (c - 13) / 1.5))\<rfloor>, 0)"
    "14.5 \<le> c \<Longrightarrow> auto_alphas_fl rnd c = (255, 0)"
  using map_lerp_fl [OF assms roundingD(2) [OF assms]]
  by (simp_all add: auto_alphas_fl_def)

lemma ramp_down:
  assumes r: "rounding rnd"
  shows "f1 \<le> f2 \<Longrightarrow> lerp_fl rnd 255 0 f2 \<le> lerp_fl rnd 255 0 f1"
    and "0 \<le> f \<Longrightarrow> f \<le> 1 \<Longrightarrow> 0 \<le> lerp_fl rnd 255 0 f \<and> lerp_fl rnd 255 0 f \<le> 255"
proof -
  note m = roundingD(1) [OF r]
  have e: "\<And>g. lerp_fl rnd 255 0 g = rnd (255 + rnd (- 255 * g))"
    using roundingD(7) [OF r] by (simp add: lerp_fl_def)
  show "lerp_fl rnd 255 0 f2 \<le> lerp_fl rnd 255 0 f1" if "f1 \<le> f2"
  proof -
    have "- 255 * f2 \<le> - 255 * f1" using that by simp
    then have "rnd (- 255 * f2) \<le> rnd (- 255 * f1)" by (rule m)
    then have "255 + rnd (- 255 * f2) \<le> 255 + rnd (- 255 * f1)" by simp
    then show ?thesis unfolding e by (rule m)
  qed
  show "0 \<le> lerp_fl rnd 255 0 f \<and> lerp_fl rnd 255 0 f \<le> 255" if "0 \<le> f" "f \<le> 1"
  proof -
    have "- 255 \<le> - 255 * f" "- 255 * f \<le> 0" using that by simp_all
    then have "rnd (- 255) \<le> rnd (- 255 * f)" "rnd (- 255 * f) \<le> rnd 0" by (auto intro!: m)
    then have "0 \<le> 255 + rnd (- 255 * f)" "255 + rnd (- 255 * f) \<le> 255"
      using roundingD(3,7) [OF r] by simp_all
    then have "rnd 0 \<le> rnd (255 + rnd (- 255 * f))" "rnd (255 + rnd (- 255 * f)) \<le> rnd 255"
      by (auto intro!: m)
    then show ?thesis unfolding e using roundingD(3,6) [OF r] by simp
  qed
qed

lemma ramp_up:
  assumes r: "rounding rnd"
  shows "f1 \<le> f2 \<Longrightarrow> lerp_fl rnd 0 255 f1 \<le> lerp_fl rnd 0 255 f2"
    and "0 \<le> f \<Longrightarrow> f \<le> 1 \<Longrightarrow> 0 \<le> lerp_fl rnd 0 255 f \<and> lerp_fl rnd 0 255 f \<le> 255"
proof -
  note m = roundingD(1) [OF r]
  have e: "\<And>g. lerp_fl rnd 0 255 g = rnd (255 * g)"
    using roundingD(2,6) [OF r] by (simp add: lerp_fl_def)
  show "lerp_fl rnd 0 255 f1 \<le> lerp_fl rnd 0 255 f2" if "f1 \<le> f2"
  proof -
    have "255 * f1 \<le> 255 * f2" using that by simp
    then show ?thesis unfolding e by (rule m)
  qed
  show "0 \<le> lerp_fl rnd 0 255 f \<and> lerp_fl rnd 0 255 f \<le> 255" if "0 \<le> f" "f \<le> 1"
  proof -
    have "0 \<le> 255 * f" "255 * f \<le> 255" using that by simp_all
    then have "rnd 0 \<le> rnd (255 * f)" "rnd (255 * f) \<le> rnd 255" by (auto intro!: m)
    then show ?thesis unfolding e using roundingD(3,6) [OF r] by simp
  qed
qed

lemma fraction_fl:
  assumes r: "rounding rnd"
  shows "c1 \<le> c2 \<Longrightarrow> rnd (rnd (c1 - lo) / 1.5) \<le> rnd (rnd (c2 - lo) / 1.5)"
    and "lo \<le> c \<Longrightarrow> c \<le> lo + 1.5 \<Longrightarrow>
         0 \<le> rnd (rnd (c - lo) / 1.5) \<and> rnd (rnd (c - lo) / 1.5) \<le> 1"
    and "c1 \<le> c2 \<Longrightarrow> rnd (c1 / 1.5) \<le> rnd (c2 / 1.5)"
    and "0 \<le> c \<Longrightarrow> c \<le> 1.5 \<Longrightarrow> 0 \<le> rnd (c / 1.5) \<and> rnd (c / 1.5) \<le> 1"
proof -
  note m = roundingD(1) [OF r]
  show "rnd (rnd (c1 - lo) / 1.5) \<le> rnd (rnd (c2 - lo) / 1.5)" if "c1 \<le> c2"
  proof -
    have "rnd (c1 - lo) \<le> rnd (c2 - lo)" using that by (intro m) simp
    then have "rnd (c1 - lo) / 1.5 \<le> rnd (c2 - lo) / 1.5" by simp
    then show ?thesis by (rule m)
  qed
  show "0 \<le> rnd (rnd (c - lo) / 1.5) \<and> rnd (rnd (c - lo) / 1.5) \<le> 1"
    if "lo \<le> c" "c \<le> lo + 1.5"
  proof -
    have "rnd 0 \<le> rnd (c - lo)" "rnd (c - lo) \<le> rnd (3 / 2)" using that by (intro m; simp)+
    then have "0 \<le> rnd (c - lo) / 1.5" "rnd (c - lo) / 1.5 \<le> 1"
      using roundingD(3,5) [OF r] by simp_all
    then have "rnd 0 \<le> rnd (rnd (c - lo) / 1.5)" "rnd (rnd (c - lo) / 1.5) \<le> rnd 1"
      by (auto intro!: m)
    then show ?thesis using roundingD(3,4) [OF r] by simp
  qed
  show "rnd (c1 / 1.5) \<le> rnd (c2 / 1.5)" if "c1 \<le> c2"
    using that by (intro m) simp
  show "0 \<le> rnd (c / 1.5) \<and> rnd (c / 1.5) \<le> 1" if "0 \<le> c" "c \<le> 1.5"
  proof -
    have "0 \<le> c / 1.5" "c / 1.5 \<le> 1" using that by simp_all
    then have "rnd 0 \<le> rnd (c / 1.5)" "rnd (c / 1.5) \<le> rnd 1" by (auto intro!: m)
    then show ?thesis using roundingD(3,4) [OF r] by simp
  qed
qed

lemma floor_range: "0 \<le> x \<Longrightarrow> x \<le> 255 \<Longrightarrow> 0 \<le> \<lfloor>x::real\<rfloor> \<and> \<lfloor>x\<rfloor> \<le> 255"
  by (simp add: floor_le_iff)

lemma staircase:
  assumes r: "rounding rnd" and c: "0 \<le> c1" "c1 \<le> c2" "window c1 = window c2"
  shows "(if window c1 = 4 then fst (auto_alphas_fl rnd c1) \<le> fst (auto_alphas_fl rnd c2)
          else fst (auto_alphas_fl rnd c2) \<le> fst (auto_alphas_fl rnd c1))
    \<and> snd (auto_alphas_fl rnd c2) \<le> snd (auto_alphas_fl rnd c1)
    \<and> 0 \<le> fst (auto_alphas_fl rnd c1) \<and> fst (auto_alphas_fl rnd c1) \<le> 255
    \<and> 0 \<le> snd (auto_alphas_fl rnd c1) \<and> snd (auto_alphas_fl rnd c1) \<le> 255"
proof -
  note w = auto_alphas_fl_windows [OF r]
  consider "c1 < 1.5" "c2 < 1.5" | "1.5 \<le> c1" "c1 < 11.5" "1.5 \<le> c2" "c2 < 11.5"
    | "11.5 \<le> c1" "c1 < 13" "11.5 \<le> c2" "c2 < 13" | "13 \<le> c1" "c1 < 14.5" "13 \<le> c2" "c2 < 14.5"
    | "14.5 \<le> c1" "14.5 \<le> c2"
    using c(3) by (auto simp: window_def split: if_splits)
  then show ?thesis
  proof cases
    case 1
    have f: "rnd (c1 / 1.5) \<le> rnd (c2 / 1.5)" using fraction_fl(3) [OF r c(2)] .
    have b: "0 \<le> rnd (c1 / 1.5) \<and> rnd (c1 / 1.5) \<le> 1"
      using fraction_fl(4) [OF r c(1)] 1 by simp
    have m: "\<lfloor>lerp_fl rnd 255 0 (rnd (c2 / 1.5))\<rfloor> \<le> \<lfloor>lerp_fl rnd 255 0 (rnd (c1 / 1.5))\<rfloor>"
      using ramp_down(1) [OF r f] by (rule floor_mono)
    have g: "0 \<le> \<lfloor>lerp_fl rnd 255 0 (rnd (c1 / 1.5))\<rfloor> \<and> \<lfloor>lerp_fl rnd 255 0 (rnd (c1 / 1.5))\<rfloor> \<le> 255"
      using ramp_down(2) [OF r] b floor_range by blast
    have "window c1 = 1" using 1 by (simp add: window_def)
    moreover note w(1) [OF 1(1)] w(1) [OF 1(2)]
    ultimately show ?thesis using m g by simp
  next
    case 2
    have "window c1 = 2" using 2 by (simp add: window_def)
    moreover note w(2) [OF 2(1,2)] w(2) [OF 2(3,4)]
    ultimately show ?thesis by simp
  next
    case 3
    have f: "rnd (rnd (c1 - 11.5) / 1.5) \<le> rnd (rnd (c2 - 11.5) / 1.5)"
      using fraction_fl(1) [OF r c(2)] .
    have b: "0 \<le> rnd (rnd (c1 - 11.5) / 1.5) \<and> rnd (rnd (c1 - 11.5) / 1.5) \<le> 1"
      using fraction_fl(2) [OF r, of "11.5" c1] 3 by simp
    have m: "\<lfloor>lerp_fl rnd 255 0 (rnd (rnd (c2 - 11.5) / 1.5))\<rfloor>
        \<le> \<lfloor>lerp_fl rnd 255 0 (rnd (rnd (c1 - 11.5) / 1.5))\<rfloor>"
      using ramp_down(1) [OF r f] by (rule floor_mono)
    have g: "0 \<le> \<lfloor>lerp_fl rnd 255 0 (rnd (rnd (c1 - 11.5) / 1.5))\<rfloor>
        \<and> \<lfloor>lerp_fl rnd 255 0 (rnd (rnd (c1 - 11.5) / 1.5))\<rfloor> \<le> 255"
      using ramp_down(2) [OF r] b floor_range by blast
    have "window c1 = 3" using 3 by (simp add: window_def)
    moreover note w(3) [OF 3(1,2)] w(3) [OF 3(3,4)]
    ultimately show ?thesis using m g by simp
  next
    case 4
    have f: "rnd (rnd (c1 - 13) / 1.5) \<le> rnd (rnd (c2 - 13) / 1.5)"
      using fraction_fl(1) [OF r c(2)] .
    have b: "0 \<le> rnd (rnd (c1 - 13) / 1.5) \<and> rnd (rnd (c1 - 13) / 1.5) \<le> 1"
      using fraction_fl(2) [OF r, of 13 c1] 4 by simp
    have m: "\<lfloor>lerp_fl rnd 0 255 (rnd (rnd (c1 - 13) / 1.5))\<rfloor>
        \<le> \<lfloor>lerp_fl rnd 0 255 (rnd (rnd (c2 - 13) / 1.5))\<rfloor>"
      using ramp_up(1) [OF r f] by (rule floor_mono)
    have g: "0 \<le> \<lfloor>lerp_fl rnd 0 255 (rnd (rnd (c1 - 13) / 1.5))\<rfloor>
        \<and> \<lfloor>lerp_fl rnd 0 255 (rnd (rnd (c1 - 13) / 1.5))\<rfloor> \<le> 255"
      using ramp_up(2) [OF r] b floor_range by blast
    have "window c1 = 4" using 4 by (simp add: window_def)
    moreover note w(4) [OF 4(1,2)] w(4) [OF 4(3,4)]
    ultimately show ?thesis using m g by simp
  next
    case 5
    have "window c1 = 5" using 5 by (simp add: window_def)
    moreover note w(5) [OF 5(1)] w(5) [OF 5(2)]
    ultimately show ?thesis by simp
  qed
qed

lemma rounding_round_half: "rounding round_half"
proof -
  have m: "mono round_half"
    by (auto simp: mono_def round_half_def intro!: floor_mono divide_right_mono)
  have i: "round_half (round_half x) = round_half x" for x
  proof -
    have "2 * (real_of_int \<lfloor>2 * x + 1 / 2\<rfloor> / 2) + 1 / 2 = real_of_int \<lfloor>2 * x + 1 / 2\<rfloor> + 1 / 2"
      by simp
    then show ?thesis unfolding round_half_def by (simp only: floor_add_int) simp
  qed
  show ?thesis
    unfolding rounding_def using m i by (simp add: round_half_def)
qed

text \<open>
  Claim C1, as the code has it. In AUTO, with a non-negative clock, the cycle position
  \<open>fadeTimer mod 23\<close> lies in \<open>[0, 23)\<close> and the alphas \<open>draw\<close> stores are those of the
  five-window schedule at that position, every operation rounded as the arithmetic rounds
  it: \<open>floor\<close> of the ramp 255 to 0 at fraction \<open>c / 1.5\<close>, and 0, on \<open>[0, 1.5)\<close>; 0 and 255
  on \<open>[1.5, 11.5)\<close>; 0 and \<open>floor\<close> of the ramp 255 to 0 at fraction \<open>(c - 11.5) / 1.5\<close> on
  \<open>[11.5, 13)\<close>; \<open>floor\<close> of the ramp 0 to 255 at fraction \<open>(c - 13) / 1.5\<close>, and 0, on
  \<open>[13, 14.5)\<close>; 255 and 0 from 14.5 on. Within one window an alpha is an integer between
  0 and 255 that only moves one way as the cycle position grows (\<open>geoAlpha\<close> up in window 4
  and down or not at all elsewhere, \<open>triAlpha\<close> down or not at all): a staircase.
\<close>

theorem auto_phase_schedule:
  assumes "rounding rnd" and "\<not> manualPhaseEnabled st" and "phaseMode st = Auto"
    and "0 \<le> fadeTimer (draw_fl rnd fr st)"
  shows "0 \<le> cycleTime (draw_fl rnd fr st) \<and> cycleTime (draw_fl rnd fr st) < 23
    \<and> geoAlpha (draw_fl rnd fr st) = fst (auto_alphas_fl rnd (cycleTime (draw_fl rnd fr st)))
    \<and> triContentAlpha (draw_fl rnd fr st) = snd (auto_alphas_fl rnd (cycleTime (draw_fl rnd fr st)))
    \<and> (c < 1.5 \<longrightarrow> auto_alphas_fl rnd c = (\<lfloor>lerp_fl rnd 255 0 (rnd (c / 1.5))\<rfloor>, 0))
    \<and> (1.5 \<le> c \<and> c < 11.5 \<longrightarrow> auto_alphas_fl rnd c = (0, 255))
    \<and> (11.5 \<le> c \<and> c < 13 \<longrightarrow>
         auto_alphas_fl rnd c = (0, \<lfloor>lerp_fl rnd 255 0 (rnd (rnd (c - 11.5) / 1.5))\<rfloor>))
    \<and> (13 \<le> c \<and> c < 14.5 \<longrightarrow>
         auto_alphas_fl rnd c = (\<lfloor>lerp_fl rnd 0 255 (rnd (rnd (c - 13) / 1.5))\<rfloor>, 0))
    \<and> (14.5 \<le> c \<longrightarrow> auto_alphas_fl rnd c = (255, 0))
    \<and> (0 \<le> c1 \<and> c1 \<le> c2 \<and> window c1 = window c2 \<longrightarrow>
          (if window c1 = 4 then fst (auto_alphas_fl rnd c1) \<le> fst (auto_alphas_fl rnd c2)
           else fst (auto_alphas_fl rnd c2) \<le> fst (auto_alphas_fl rnd c1))
          \<and> snd (auto_alphas_fl rnd c2) \<le> snd (auto_alphas_fl rnd c1)
          \<and> 0 \<le> fst (auto_alphas_fl rnd c1) \<and> fst (auto_alphas_fl rnd c1) \<le> 255
          \<and> 0 \<le> snd (auto_alphas_fl rnd c1) \<and> snd (auto_alphas_fl rnd c1) \<le> 255)"
proof -
  have r: "0 \<le> cycleTime (draw_fl rnd fr st)" "cycleTime (draw_fl rnd fr st) < 23"
    using js_rem_range [OF assms(4), of 23] by (simp_all add: cycleTime_def)
  show ?thesis
    using r draw_fl_auto [OF assms(2,3), of rnd fr] auto_alphas_fl_windows [OF assms(1), of c]
      staircase [OF assms(1), of c1 c2]
    by blast
qed

text \<open>
  The theorem with exact arithmetic and with rounding to halves: at the initial state with
  a first frame of 1.5 s (cycle position exactly 1.5: alphas 0 and 255), at position 0.75
  (\<open>geoAlpha\<close> 127 in both), and at the positions 0.3 and 0.75 of window 1.
\<close>

theorem auto_phase_schedule_witness:
  "rounding (\<lambda>x. x) \<and> rounding round_half
   \<and> cycleTime (draw_fl (\<lambda>x. x) \<lparr>deltaTime = 1500, millis = 1500, width = 1080, height = 1460,
        random24 = 0, random60a = 0, random60b = 0, hour = 10, minute = 20, second = 30\<rparr> init) = 3 / 2
   \<and> geoAlpha (draw_fl (\<lambda>x. x) \<lparr>deltaTime = 1500, millis = 1500, width = 1080, height = 1460,
        random24 = 0, random60a = 0, random60b = 0, hour = 10, minute = 20, second = 30\<rparr> init) = 0
   \<and> triContentAlpha (draw_fl (\<lambda>x. x) \<lparr>deltaTime = 1500, millis = 1500, width = 1080, height = 1460,
        random24 = 0, random60a = 0, random60b = 0, hour = 10, minute = 20, second = 30\<rparr> init) = 255
   \<and> auto_alphas_fl (\<lambda>x. x) (3 / 4) = (127, 0)
   \<and> auto_alphas_fl round_half (3 / 4) = (127, 0)
   \<and> fst (auto_alphas_fl round_half (3 / 4)) \<le> fst (auto_alphas_fl round_half (3 / 10))"
proof -
  let ?fr = "\<lparr>deltaTime = 1500, millis = 1500, width = 1080, height = 1460,
        random24 = 0, random60a = 0, random60b = 0, hour = 10, minute = 20, second = 30\<rparr>"
  have i: "\<not> manualPhaseEnabled init" "phaseMode init = Auto" by (simp_all add: init_def)
  have f: "fadeTimer (draw_fl (\<lambda>x. x) ?fr init) = 3 / 2" by (simp add: draw_fl_fadeTimer init_def)
  have p: "0 \<le> fadeTimer (draw_fl (\<lambda>x. x) ?fr init)" by (simp add: f)
  have f': "fadeTimer (draw_fl round_half ?fr init) = 3 / 2"
    by (simp add: draw_fl_fadeTimer init_def round_half_def)
  have p': "0 \<le> fadeTimer (draw_fl round_half ?fr init)" by (simp add: f')
  have c: "cycleTime (draw_fl (\<lambda>x. x) ?fr init) = 3 / 2"
    by (simp add: cycleTime_def f js_rem_def trunc_real_def)
  note t1 = auto_phase_schedule [OF rounding_exact i p, of "3 / 2" "3 / 10" "3 / 4"]
  note t2 = auto_phase_schedule [OF rounding_exact i p, of "3 / 4" "3 / 10" "3 / 4"]
  note t3 = auto_phase_schedule [OF rounding_round_half i p', of "3 / 4" "3 / 10" "3 / 4"]
  from t1 have "auto_alphas_fl (\<lambda>x. x) (3 / 2) = (0, 255)" by simp
  with t1 c have 1: "geoAlpha (draw_fl (\<lambda>x. x) ?fr init) = 0"
    "triContentAlpha (draw_fl (\<lambda>x. x) ?fr init) = 255"
    by simp_all
  from t2 have 2: "auto_alphas_fl (\<lambda>x. x) (3 / 4) = (127, 0)" by (simp add: lerp_fl_def)
  from t3 have 3: "auto_alphas_fl round_half (3 / 4) = (127, 0)"
    by (simp add: lerp_fl_def round_half_def)
  note t4 = auto_phase_schedule [OF rounding_round_half i p', of 6 "3 / 10" "3 / 4"]
  from t4 have 4: "fst (auto_alphas_fl round_half (3 / 4)) \<le> fst (auto_alphas_fl round_half (3 / 10))"
    by (simp add: window_def)
  show ?thesis using rounding_exact rounding_round_half c 1 2 3 4 by blast
qed

text \<open>
  Where the claim as written fails: \<open>Math.floor\<close> makes the ramp a staircase. At the cycle
  positions 0 and 0.75, both in window 1, \<open>geoAlpha\<close> is 255 and 127 (no operation rounds
  at these two inputs, so these are the values the program stores); a function that has
  only integer values and these two cannot be continuous between them.
\<close>

theorem auto_geo_jump_counterexample:
  "window 0 = 1 \<and> window (3 / 4) = 1 \<and> auto_geo 0 = 255 \<and> auto_geo (3 / 4) = 127
   \<and> \<not> continuous_on {0..3 / 4} auto_geo"
proof (intro conjI)
  show "window 0 = 1" "window (3 / 4) = 1" by (simp_all add: window_def)
  show a: "auto_geo 0 = 255" by (simp add: auto_geo_def auto_alphas_def map_p5_def)
  show b: "auto_geo (3 / 4) = 127" by (simp add: auto_geo_def auto_alphas_def map_p5_def)
  show "\<not> continuous_on {0..3 / 4} auto_geo"
  proof
    assume "continuous_on {0..3 / 4} auto_geo"
    then have "\<exists>x. 0 \<le> x \<and> x \<le> 3 / 4 \<and> auto_geo x = 401 / 2"
      by (intro IVT2') (simp_all add: a b)
    then obtain x where "auto_geo x = 401 / 2" by blast
    then have "real_of_int (2 * fst (auto_alphas x)) = real_of_int 401"
      by (simp add: auto_geo_def)
    then have "2 * fst (auto_alphas x) = 401" by (simp only: of_int_eq_iff)
    then show False by presburger
  qed
qed

end
